theory Spec2Isabelle
  imports Main
begin

section \<open>Academic progression engine of the attendance backend\<close>

text \<open>
  The two batch handlers of the student controller, \<open>promoteStudentsToNextSemester\<close> and
  \<open>rollbackStudents\<close>, are embedded as functions on an explicit picture of the document
  store.  JavaScript Numbers are embedded as the integers together with \<open>NaN\<close>.  The
  embedding is exact as long as every number read or computed is a safe integer (magnitude
  below \<open>2^53\<close>, so any digit string of up to fifteen digits); beyond that JavaScript
  rounds and the embedding does not.  Strings are lists of 8-bit characters, so the white
  space of \<open>parseInt\<close> is its Latin-1 part.
\<close>

subsection \<open>JavaScript primitives used by the handlers\<close>

datatype jsnum = NaN | Num int

text \<open>White space that \<open>parseInt\<close> strips in front of its argument (TAB, LF, VT, FF, CR,
  SP and NBSP).\<close>

definition isWhiteSpace :: "char \<Rightarrow> bool" where
  "isWhiteSpace c = ((of_char c :: nat) \<in> {9, 10, 11, 12, 13, 32, 160})"

definition isDigit :: "char \<Rightarrow> bool" where
  "isDigit c = (48 \<le> (of_char c :: nat) \<and> (of_char c :: nat) \<le> 57)"

definition digitValue :: "char \<Rightarrow> nat" where
  "digitValue c = of_char c - 48"

definition digitChar :: "nat \<Rightarrow> char" where
  "digitChar d = char_of (48 + d)"

definition digitsValue :: "string \<Rightarrow> nat" where
  "digitsValue z = foldl (\<lambda>a c. 10 * a + digitValue c) 0 z"

text \<open>\<open>parseInt(str, 10)\<close>: skip leading white space, take one optional sign, read the
  longest run of decimal digits; no digit at all gives \<open>NaN\<close>.  Whatever follows the digits
  is ignored.  The result is the exact value of the digit run, which is JavaScript's as
  long as that value is a safe integer; whether the result is \<open>NaN\<close> never depends on the
  size of the number.\<close>

definition parseInt :: "string \<Rightarrow> jsnum" where
  "parseInt str =
     (let s = dropWhile isWhiteSpace str;
          neg = (s \<noteq> [] \<and> hd s = CHR ''-'');
          body = (if s \<noteq> [] \<and> (hd s = CHR ''-'' \<or> hd s = CHR ''+'') then tl s else s);
          z = takeWhile isDigit body
      in if z = [] then NaN
         else Num (if neg then - int (digitsValue z) else int (digitsValue z)))"

text \<open>Decimal digits of a natural number, most significant first.\<close>

fun digitsOf :: "nat \<Rightarrow> string" where
  "digitsOf n = (if n < 10 then [digitChar n] else digitsOf (n div 10) @ [digitChar (n mod 10)])"

declare digitsOf.simps [simp del]

text \<open>\<open>Number.prototype.toString()\<close> on an integer, and on \<open>NaN\<close>: the decimal digits,
  which is what JavaScript prints for every safe integer (and up to \<open>2^53\<close>).\<close>

definition toString :: "int \<Rightarrow> string" where
  "toString n = (if n < 0 then CHR ''-'' # digitsOf (nat (- n)) else digitsOf (nat n))"

fun numToString :: "jsnum \<Rightarrow> string" where
  "numToString NaN = ''NaN''"
| "numToString (Num n) = toString n"

text \<open>\<open>x + k\<close> for a Number \<open>x\<close> and an integer constant \<open>k\<close>: \<open>NaN\<close> is absorbing.  The sum
  is the exact one, which is JavaScript's as long as it is a safe integer.\<close>

fun numAdd :: "jsnum \<Rightarrow> int \<Rightarrow> jsnum" where
  "numAdd NaN k = NaN"
| "numAdd (Num n) k = Num (n + k)"

text \<open>The remainder operator \<open>%\<close> on integers: the result takes the sign of the dividend.\<close>

definition jsRem :: "int \<Rightarrow> int \<Rightarrow> int" where
  "jsRem a b = sgn a * (\<bar>a\<bar> mod \<bar>b\<bar>)"

text \<open>\<open>s.slice(-2)\<close>: the last two characters, or all of \<open>s\<close> when it is shorter.\<close>

definition sliceLast2 :: "string \<Rightarrow> string" where
  "sliceLast2 s = drop (length s - 2) s"

text \<open>\<open>const [start] = s.split("-")\<close>: the text in front of the first hyphen.\<close>

definition splitHead :: "string \<Rightarrow> string" where
  "splitHead s = takeWhile (\<lambda>c. c \<noteq> CHR ''-'') s"

subsection \<open>The range in which the embedding of Numbers is exact\<close>

text \<open>\<open>Number.isSafeInteger\<close>: an integer of magnitude below \<open>2^53\<close>.  On these, parsing,
  adding or subtracting one, and printing are exact in JavaScript and agree with
  \<open>parseInt\<close>, \<open>numAdd\<close> and \<open>toString\<close> above.  Every property below that depends on the
  value of a number assumes it.\<close>

definition safeInteger :: "int \<Rightarrow> bool" where
  "safeInteger n = (\<bar>n\<bar> < 2 ^ 53)"

text \<open>A year label is in range when it has no start year (all label arithmetic is then
  \<open>NaN\<close>) or when its start year \<open>S\<close>, which cannot be negative, leaves \<open>S + 2\<close> a safe
  integer: the labels are built from \<open>S - 1\<close>, \<open>S\<close>, \<open>S + 1\<close> and \<open>S + 2\<close>.\<close>

definition safeStartYear :: "string \<Rightarrow> bool" where
  "safeStartYear academicYear =
     (case parseInt (splitHead academicYear) of
        NaN \<Rightarrow> True
      | Num S \<Rightarrow> safeInteger (S + 2))"

subsection \<open>Year-label arithmetic\<close>

text \<open>The template \<open>`${newStart}-${(newStart + 1).toString().slice(-2)}`\<close> that all three
  label computations share.\<close>

definition yearLabel :: "jsnum \<Rightarrow> string" where
  "yearLabel newStart =
     numToString newStart @ ''-'' @ sliceLast2 (numToString (numAdd newStart 1))"

text \<open>Forward label (promotion and the year-only reset): \<open>newStart = parseInt(start, 10) + 1\<close>.\<close>

definition nextYearLabel :: "string \<Rightarrow> string" where
  "nextYearLabel academicYear = yearLabel (numAdd (parseInt (splitHead academicYear)) 1)"

text \<open>Backward label (normal rollback): \<open>prevStart = parseInt(startYear, 10) - 1\<close>.\<close>

definition prevYearLabel :: "string \<Rightarrow> string" where
  "prevYearLabel academicYear = yearLabel (numAdd (parseInt (splitHead academicYear)) (- 1))"

text \<open>The specification's wording of a label suffix: the last two decimal digits of a
  year, padded with a zero to two characters.\<close>

definition twoDigitSuffix :: "int \<Rightarrow> string" where
  "twoDigitSuffix y = [digitChar (nat (y mod 100) div 10), digitChar (nat (y mod 100) mod 10)]"

subsection \<open>Documents and collections\<close>

text \<open>Modelled from the spec: the Student and Course schemas (\<open>models/Student\<close>,
  \<open>models/Course\<close>) are not among the sources.  A student carries the fields the handlers
  read and write, both \<open>semId\<close> and \<open>academicYear\<close> being strings; a course carries its
  identifier and its number of semesters, a Number.\<close>

type_synonym oid = nat

record student =
  sid :: oid
  courseId :: string
  semId :: string
  academicYear :: string

record course =
  Course_Id :: string
  No_of_Sem :: int

text \<open>The Attendance schema: one document per student, subject and academic year.\<close>

record attendanceEntry =
  date :: nat
  present :: bool
  markedBy :: "string option"
  markedAt :: nat

record attendance =
  studentId :: oid
  subjectCode :: string
  currAcademicYear :: string
  records :: "attendanceEntry list"

record world =
  students :: "student list"
  courses :: "course list"
  attendances :: "attendance list"

text \<open>\<open>Student.find({_id: {$in: studentIds}})\<close>: the stored documents whose identifier is
  listed, in collection order, each once.\<close>

definition findStudents :: "oid list \<Rightarrow> student list \<Rightarrow> student list" where
  "findStudents ids ds = filter (\<lambda>d. sid d \<in> set ids) ds"

text \<open>\<open>Course.findOne({Course_Id: student.courseId})\<close>: the first matching course, if any.\<close>

definition findOneCourse :: "course list \<Rightarrow> string \<Rightarrow> course option" where
  "findOneCourse cs cid = find (\<lambda>c. Course_Id c = cid) cs"

definition findById :: "oid \<Rightarrow> student list \<Rightarrow> student option" where
  "findById i ds = find (\<lambda>d. sid d = i) ds"

text \<open>The \<open>$set\<close> document of an update: each field is written only when present.\<close>

record updatePayload =
  set_semId :: "string option"
  set_academicYear :: "string option"

definition applySet :: "updatePayload \<Rightarrow> student \<Rightarrow> student" where
  "applySet p d =
     (let d1 = (case set_semId p of None \<Rightarrow> d | Some v \<Rightarrow> d\<lparr>semId := v\<rparr>)
      in (case set_academicYear p of None \<Rightarrow> d1 | Some y \<Rightarrow> d1\<lparr>academicYear := y\<rparr>))"

text \<open>\<open>Student.updateOne({_id: i}, {$set: p})\<close>: the first document with that identifier
  is rewritten, no other.\<close>

fun updateOne :: "oid \<Rightarrow> updatePayload \<Rightarrow> student list \<Rightarrow> student list" where
  "updateOne i p [] = []"
| "updateOne i p (d # ds) = (if sid d = i then applySet p d # ds else d # updateOne i p ds)"

text \<open>Every awaited call on the store inside the \<open>try\<close> block may reject, which throws
  into the handler's \<open>catch\<close>.  The number of calls the store still answers is a parameter
  of the model; \<open>None\<close> is a store that never fails.  Opening the session, which happens
  before the \<open>try\<close> block, and a failing \<open>abortTransaction\<close> inside the \<open>catch\<close> are not
  part of the embedding.\<close>

datatype error = StorageError

definition storageCall :: "nat option \<Rightarrow> error + nat option" where
  "storageCall calls =
     (case calls of None \<Rightarrow> Inr None
      | Some 0 \<Rightarrow> Inl StorageError
      | Some (Suc k) \<Rightarrow> Inr (Some k))"

subsection \<open>Requests and responses\<close>

text \<open>The \<open>studentIds\<close> field of the request body may be missing, may be something other
  than an array, or is an array of identifiers.  \<open>resetAttendance\<close> is compared with
  \<open>=== true\<close>, so every other value, and its absence, acts as \<open>False\<close>.\<close>

datatype idsField = Absent | NotAnArray | IdArray "oid list"

record request =
  studentIds :: idsField
  resetAttendance :: bool

record skippedItem =
  sk_studentId :: oid
  reason :: string

record promotedItem =
  pr_studentId :: oid
  pr_fromSem :: int
  pr_toSem :: int
  pr_academicYear :: string

text \<open>An entry of \<open>rolledBack\<close>: the year-only reset reports \<open>sem\<close>, the normal rollback
  reports \<open>fromSem\<close> and \<open>toSem\<close>.\<close>

record rolledBackItem =
  rb_studentId :: oid
  rb_sem :: "string option"
  rb_fromSem :: "string option"
  rb_toSem :: "string option"
  rb_academicYearFrom :: string
  rb_academicYearTo :: string
  rb_type :: string

datatype body =
    Message string
  | PromoteSummary nat "promotedItem list" "skippedItem list"
  | RollbackSummary nat "rolledBackItem list" "skippedItem list"
  | Failure string

record response =
  status :: nat
  body :: body

subsection \<open>promoteStudentsToNextSemester\<close>

text \<open>What the loop of the handler carries: the Students collection as the session sees
  it, the calls the store still answers, and the two result arrays.\<close>

record promoteState =
  p_docs :: "student list"
  p_calls :: "nat option"
  promoted :: "promotedItem list"
  p_skipped :: "skippedItem list"

text \<open>One turn of the \<open>for\<close> loop.  The course is looked up first, then the semester is
  parsed, then the ceiling is tested; each \<open>continue\<close> leaves the documents alone.\<close>

definition promoteOne :: "course list \<Rightarrow> student \<Rightarrow> promoteState \<Rightarrow> error + promoteState" where
  "promoteOne cs student st =
     (case storageCall (p_calls st) of
        Inl e \<Rightarrow> Inl e
      | Inr k1 \<Rightarrow>
          (case findOneCourse cs (courseId student) of
             None \<Rightarrow>
               Inr (st\<lparr>p_calls := k1,
                       p_skipped := p_skipped st @
                         [\<lparr>sk_studentId = sid student, reason = ''Course not found''\<rparr>]\<rparr>)
           | Some course \<Rightarrow>
               (case parseInt (semId student) of
                  NaN \<Rightarrow>
                    Inr (st\<lparr>p_calls := k1,
                            p_skipped := p_skipped st @
                              [\<lparr>sk_studentId = sid student, reason = ''Invalid semester''\<rparr>]\<rparr>)
                | Num currentSem \<Rightarrow>
                    if currentSem \<ge> No_of_Sem course then
                      Inr (st\<lparr>p_calls := k1,
                              p_skipped := p_skipped st @
                                [\<lparr>sk_studentId = sid student, reason = ''Final semester''\<rparr>]\<rparr>)
                    else
                      (let nextSem = currentSem + 1;
                           nextAcademicYear =
                             (if jsRem currentSem 2 = 0 then nextYearLabel (academicYear student)
                              else academicYear student)
                       in case storageCall k1 of
                            Inl e \<Rightarrow> Inl e
                          | Inr k2 \<Rightarrow>
                              Inr (st\<lparr>p_calls := k2,
                                      p_docs := updateOne (sid student)
                                        \<lparr>set_semId = Some (toString nextSem),
                                         set_academicYear = Some nextAcademicYear\<rparr> (p_docs st),
                                      promoted := promoted st @
                                        [\<lparr>pr_studentId = sid student, pr_fromSem = currentSem,
                                          pr_toSem = nextSem,
                                          pr_academicYear = nextAcademicYear\<rparr>]\<rparr>)))))"

fun promoteLoop :: "course list \<Rightarrow> student list \<Rightarrow> promoteState \<Rightarrow> error + promoteState" where
  "promoteLoop cs [] st = Inr st"
| "promoteLoop cs (student # rest) st =
     (case promoteOne cs student st of
        Inl e \<Rightarrow> Inl e
      | Inr st' \<Rightarrow> promoteLoop cs rest st')"

text \<open>The handler.  The 400 and 404 answers return before anything is written; a thrown
  error aborts the transaction, so the collection stays as it was; otherwise the commit
  makes the session's documents the stored ones.\<close>

definition promoteStudentsToNextSemester ::
    "request \<Rightarrow> nat option \<Rightarrow> world \<Rightarrow> response \<times> world" where
  "promoteStudentsToNextSemester req calls w =
     (case studentIds req of
        IdArray ids \<Rightarrow>
          if ids = [] then
            (\<lparr>status = 400, body = Message ''studentIds must be a non-empty array''\<rparr>, w)
          else
            (case storageCall calls of
               Inl e \<Rightarrow> (\<lparr>status = 500, body = Failure ''Promotion failed''\<rparr>, w)
             | Inr k1 \<Rightarrow>
                 (let found = findStudents ids (students w)
                  in if found = [] then
                       (\<lparr>status = 404, body = Message ''No valid students found''\<rparr>, w)
                     else
                       (case promoteLoop (courses w) found
                               \<lparr>p_docs = students w, p_calls = k1, promoted = [], p_skipped = []\<rparr> of
                          Inl e \<Rightarrow> (\<lparr>status = 500, body = Failure ''Promotion failed''\<rparr>, w)
                        | Inr st \<Rightarrow>
                            (case storageCall (p_calls st) of
                               Inl e \<Rightarrow> (\<lparr>status = 500, body = Failure ''Promotion failed''\<rparr>, w)
                             | Inr k2 \<Rightarrow>
                                 (\<lparr>status = 200,
                                   body = PromoteSummary (length ids) (promoted st) (p_skipped st)\<rparr>,
                                  w\<lparr>students := p_docs st\<rparr>)))))
      | _ \<Rightarrow> (\<lparr>status = 400, body = Message ''studentIds must be a non-empty array''\<rparr>, w))"

subsection \<open>rollbackStudents\<close>

record rollbackState =
  r_docs :: "student list"
  r_calls :: "nat option"
  rolledBack :: "rolledBackItem list"
  r_skipped :: "skippedItem list"

text \<open>One turn of the rollback loop.  The semester is parsed first; the year-only reset
  and the normal rollback then build the \<open>$set\<close> document, and the update is issued after
  the entry has been pushed.  \<open>academicYearTo\<close> is \<open>updatePayload.academicYear ||
  student.academicYear\<close>; a label built by the template is never empty, so the payload's
  label is reported whenever it is set.\<close>

definition rollbackOne :: "bool \<Rightarrow> student \<Rightarrow> rollbackState \<Rightarrow> error + rollbackState" where
  "rollbackOne resetAtt student st =
     (case parseInt (semId student) of
        NaN \<Rightarrow>
          Inr (st\<lparr>r_skipped := r_skipped st @
                 [\<lparr>sk_studentId = sid student, reason = ''Invalid semester value''\<rparr>]\<rparr>)
      | Num currentSem \<Rightarrow>
          if resetAtt then
            (let updatePayload =
                   \<lparr>set_semId = None,
                    set_academicYear = Some (nextYearLabel (academicYear student))\<rparr>;
                 item = \<lparr>rb_studentId = sid student, rb_sem = Some (semId student),
                         rb_fromSem = None, rb_toSem = None,
                         rb_academicYearFrom = academicYear student,
                         rb_academicYearTo = nextYearLabel (academicYear student),
                         rb_type = ''RESET_YEAR_ONLY''\<rparr>
             in case storageCall (r_calls st) of
                  Inl e \<Rightarrow> Inl e
                | Inr k \<Rightarrow>
                    Inr (st\<lparr>r_calls := k,
                            r_docs := updateOne (sid student) updatePayload (r_docs st),
                            rolledBack := rolledBack st @ [item]\<rparr>))
          else if currentSem \<le> 1 then
            Inr (st\<lparr>r_skipped := r_skipped st @
                   [\<lparr>sk_studentId = sid student, reason = ''Already in first semester''\<rparr>]\<rparr>)
          else
            (let previousSem = toString (currentSem - 1);
                 updatePayload =
                   \<lparr>set_semId = Some previousSem,
                    set_academicYear =
                      (if jsRem currentSem 2 = 0 then Some (prevYearLabel (academicYear student))
                       else None)\<rparr>;
                 item = \<lparr>rb_studentId = sid student, rb_sem = None,
                         rb_fromSem = Some (semId student), rb_toSem = Some previousSem,
                         rb_academicYearFrom = academicYear student,
                         rb_academicYearTo =
                           (case set_academicYear updatePayload of
                              Some y \<Rightarrow> y
                            | None \<Rightarrow> academicYear student),
                         rb_type = ''NORMAL_ROLLBACK''\<rparr>
             in case storageCall (r_calls st) of
                  Inl e \<Rightarrow> Inl e
                | Inr k \<Rightarrow>
                    Inr (st\<lparr>r_calls := k,
                            r_docs := updateOne (sid student) updatePayload (r_docs st),
                            rolledBack := rolledBack st @ [item]\<rparr>)))"

fun rollbackLoop :: "bool \<Rightarrow> student list \<Rightarrow> rollbackState \<Rightarrow> error + rollbackState" where
  "rollbackLoop resetAtt [] st = Inr st"
| "rollbackLoop resetAtt (student # rest) st =
     (case rollbackOne resetAtt student st of
        Inl e \<Rightarrow> Inl e
      | Inr st' \<Rightarrow> rollbackLoop resetAtt rest st')"

text \<open>The handler.  There is no test for an empty \<open>students\<close> result here: the loop
  simply runs zero times.\<close>

definition rollbackStudents :: "request \<Rightarrow> nat option \<Rightarrow> world \<Rightarrow> response \<times> world" where
  "rollbackStudents req calls w =
     (case studentIds req of
        IdArray ids \<Rightarrow>
          if ids = [] then
            (\<lparr>status = 400, body = Message ''studentIds must be a non-empty array''\<rparr>, w)
          else
            (case storageCall calls of
               Inl e \<Rightarrow> (\<lparr>status = 500, body = Failure ''Rollback failed''\<rparr>, w)
             | Inr k1 \<Rightarrow>
                 (case rollbackLoop (resetAttendance req) (findStudents ids (students w))
                         \<lparr>r_docs = students w, r_calls = k1, rolledBack = [], r_skipped = []\<rparr> of
                    Inl e \<Rightarrow> (\<lparr>status = 500, body = Failure ''Rollback failed''\<rparr>, w)
                  | Inr st \<Rightarrow>
                      (case storageCall (r_calls st) of
                         Inl e \<Rightarrow> (\<lparr>status = 500, body = Failure ''Rollback failed''\<rparr>, w)
                       | Inr k2 \<Rightarrow>
                           (\<lparr>status = 200,
                             body = RollbackSummary (length ids) (rolledBack st) (r_skipped st)\<rparr>,
                            w\<lparr>students := r_docs st\<rparr>))))
      | _ \<Rightarrow> (\<lparr>status = 400, body = Message ''studentIds must be a non-empty array''\<rparr>, w))"

subsection \<open>Reading a response\<close>

text \<open>The arrays of a success body; any other body has none.\<close>

definition skippedIn :: "response \<Rightarrow> skippedItem list" where
  "skippedIn r =
     (case body r of
        PromoteSummary k a sk \<Rightarrow> sk
      | RollbackSummary k a sk \<Rightarrow> sk
      | _ \<Rightarrow> [])"

definition promotedIn :: "response \<Rightarrow> promotedItem list" where
  "promotedIn r = (case body r of PromoteSummary k a sk \<Rightarrow> a | _ \<Rightarrow> [])"

definition rolledBackIn :: "response \<Rightarrow> rolledBackItem list" where
  "rolledBackIn r = (case body r of RollbackSummary k a sk \<Rightarrow> a | _ \<Rightarrow> [])"

subsection \<open>The per-student classification computed by the loop bodies\<close>

text \<open>For stating what a whole loop does, each turn is summarised by its decision: the
  entry pushed on \<open>skipped\<close>, or the \<open>$set\<close> document together with the entry pushed on the
  result array.  The decision functions repeat the tests of \<open>promoteOne\<close> and
  \<open>rollbackOne\<close> without the store; the lemmas \<open>promoteOne_decision\<close> and
  \<open>rollbackOne_decision\<close> tie them to the loop bodies.\<close>

datatype 'a decision = Skip skippedItem | Apply updatePayload 'a

definition promoteDecision :: "course list \<Rightarrow> student \<Rightarrow> promotedItem decision" where
  "promoteDecision cs student =
     (case findOneCourse cs (courseId student) of
        None \<Rightarrow> Skip \<lparr>sk_studentId = sid student, reason = ''Course not found''\<rparr>
      | Some course \<Rightarrow>
          (case parseInt (semId student) of
             NaN \<Rightarrow> Skip \<lparr>sk_studentId = sid student, reason = ''Invalid semester''\<rparr>
           | Num currentSem \<Rightarrow>
               if currentSem \<ge> No_of_Sem course then
                 Skip \<lparr>sk_studentId = sid student, reason = ''Final semester''\<rparr>
               else
                 (let nextSem = currentSem + 1;
                      nextAcademicYear =
                        (if jsRem currentSem 2 = 0 then nextYearLabel (academicYear student)
                         else academicYear student)
                  in Apply \<lparr>set_semId = Some (toString nextSem),
                             set_academicYear = Some nextAcademicYear\<rparr>
                           \<lparr>pr_studentId = sid student, pr_fromSem = currentSem,
                            pr_toSem = nextSem, pr_academicYear = nextAcademicYear\<rparr>)))"

definition rollbackDecision :: "bool \<Rightarrow> student \<Rightarrow> rolledBackItem decision" where
  "rollbackDecision resetAtt student =
     (case parseInt (semId student) of
        NaN \<Rightarrow> Skip \<lparr>sk_studentId = sid student, reason = ''Invalid semester value''\<rparr>
      | Num currentSem \<Rightarrow>
          if resetAtt then
            Apply \<lparr>set_semId = None,
                   set_academicYear = Some (nextYearLabel (academicYear student))\<rparr>
                  \<lparr>rb_studentId = sid student, rb_sem = Some (semId student),
                   rb_fromSem = None, rb_toSem = None,
                   rb_academicYearFrom = academicYear student,
                   rb_academicYearTo = nextYearLabel (academicYear student),
                   rb_type = ''RESET_YEAR_ONLY''\<rparr>
          else if currentSem \<le> 1 then
            Skip \<lparr>sk_studentId = sid student, reason = ''Already in first semester''\<rparr>
          else
            Apply \<lparr>set_semId = Some (toString (currentSem - 1)),
                   set_academicYear =
                     (if jsRem currentSem 2 = 0 then Some (prevYearLabel (academicYear student))
                      else None)\<rparr>
                  \<lparr>rb_studentId = sid student, rb_sem = None,
                   rb_fromSem = Some (semId student),
                   rb_toSem = Some (toString (currentSem - 1)),
                   rb_academicYearFrom = academicYear student,
                   rb_academicYearTo =
                     (if jsRem currentSem 2 = 0 then prevYearLabel (academicYear student)
                      else academicYear student),
                   rb_type = ''NORMAL_ROLLBACK''\<rparr>)"

fun skippedOf :: "(student \<Rightarrow> 'a decision) \<Rightarrow> student list \<Rightarrow> skippedItem list" where
  "skippedOf dec [] = []"
| "skippedOf dec (s # xs) =
     (case dec s of Skip it \<Rightarrow> it # skippedOf dec xs | Apply p a \<Rightarrow> skippedOf dec xs)"

fun appliedOf :: "(student \<Rightarrow> 'a decision) \<Rightarrow> student list \<Rightarrow> 'a list" where
  "appliedOf dec [] = []"
| "appliedOf dec (s # xs) =
     (case dec s of Skip it \<Rightarrow> appliedOf dec xs | Apply p a \<Rightarrow> a # appliedOf dec xs)"

fun docsAfter :: "(student \<Rightarrow> 'a decision) \<Rightarrow> student list \<Rightarrow> student list \<Rightarrow> student list" where
  "docsAfter dec [] ds = ds"
| "docsAfter dec (s # xs) ds =
     docsAfter dec xs (case dec s of Skip it \<Rightarrow> ds | Apply p a \<Rightarrow> updateOne (sid s) p ds)"

subsection \<open>A small store for worked examples\<close>

text \<open>One eight-semester course and four students on it: one in semester 4, as in the
  specification's example, one in the final semester, one whose semester is not a number
  and one whose semester is \<open>"0"\<close>; a fifth student is on a course that the catalogue does
  not have, with a semester that is not a number either.  The request names them all and
  one identifier that no student has.\<close>

definition exampleWorld :: world where
  "exampleWorld =
     \<lparr>students =
        [\<lparr>sid = 1, courseId = ''MCA'', semId = ''4'', academicYear = ''2024-25''\<rparr>,
         \<lparr>sid = 2, courseId = ''MCA'', semId = ''8'', academicYear = ''2024-25''\<rparr>,
         \<lparr>sid = 3, courseId = ''MCA'', semId = ''abc'', academicYear = ''2024-25''\<rparr>,
         \<lparr>sid = 4, courseId = ''MCA'', semId = ''0'', academicYear = ''2024-25''\<rparr>,
         \<lparr>sid = 5, courseId = ''BBA'', semId = ''x7'', academicYear = ''2024-25''\<rparr>],
      courses = [\<lparr>Course_Id = ''MCA'', No_of_Sem = 8\<rparr>],
      attendances = []\<rparr>"

definition exampleRequest :: "bool \<Rightarrow> request" where
  "exampleRequest r = \<lparr>studentIds = IdArray [1, 2, 3, 4, 5, 9], resetAttendance = r\<rparr>"

text \<open>An attendance document of student 1, for the frame property of the rollback.\<close>

definition exampleAttendance :: attendance where
  "exampleAttendance =
     \<lparr>studentId = 1, subjectCode = ''MCA-401'', currAcademicYear = ''2024-25'',
      records = [\<lparr>date = 20250113, present = True, markedBy = Some ''T-07'', markedAt = 20250113\<rparr>]\<rparr>"

section \<open>Properties of the primitives\<close>

subsection \<open>Digits, parsing and printing\<close>

lemma of_char_digitChar: "d < 10 \<Longrightarrow> (of_char (digitChar d) :: nat) = 48 + d"
  by (simp add: digitChar_def)

lemma isDigit_digitChar: "d < 10 \<Longrightarrow> isDigit (digitChar d)"
  by (simp add: isDigit_def of_char_digitChar)

lemma digitValue_digitChar: "d < 10 \<Longrightarrow> digitValue (digitChar d) = d"
  by (simp add: digitValue_def of_char_digitChar)

lemma digitChar_not_space: "d < 10 \<Longrightarrow> \<not> isWhiteSpace (digitChar d)"
  by (simp add: isWhiteSpace_def of_char_digitChar)

lemma digitChar_not_minus: "d < 10 \<Longrightarrow> digitChar d \<noteq> CHR ''-''"
proof
  assume d: "d < 10" and e: "digitChar d = CHR ''-''"
  have "(of_char (digitChar d) :: nat) = 45" by (simp add: e)
  with d show False by (simp add: of_char_digitChar)
qed

lemma digitChar_not_plus: "d < 10 \<Longrightarrow> digitChar d \<noteq> CHR ''+''"
proof
  assume d: "d < 10" and e: "digitChar d = CHR ''+''"
  have "(of_char (digitChar d) :: nat) = 43" by (simp add: e)
  with d show False by (simp add: of_char_digitChar)
qed

lemma digitsOf_all_digits: "\<forall>c \<in> set (digitsOf n). isDigit c"
proof (induction n rule: digitsOf.induct)
  case (1 n)
  show ?case
  proof (cases "n < 10")
    case True
    then show ?thesis by (simp add: digitsOf.simps [of n] isDigit_digitChar)
  next
    case False
    with 1 show ?thesis by (simp add: digitsOf.simps [of n] isDigit_digitChar)
  qed
qed

lemma digitsOf_nonempty: "digitsOf n \<noteq> []"
  by (subst digitsOf.simps) simp

lemma hd_digitsOf: "\<exists>d < 10. hd (digitsOf n) = digitChar d"
proof (induction n rule: digitsOf.induct)
  case (1 n)
  show ?case
  proof (cases "n < 10")
    case True
    then show ?thesis by (auto simp: digitsOf.simps [of n])
  next
    case False
    with 1 show ?thesis by (simp add: digitsOf.simps [of n] digitsOf_nonempty)
  qed
qed

lemma digitsValue_digitsOf: "digitsValue (digitsOf n) = n"
proof (induction n rule: digitsOf.induct)
  case (1 n)
  show ?case
  proof (cases "n < 10")
    case True
    then show ?thesis
      by (simp add: digitsOf.simps [of n] digitsValue_def digitValue_digitChar)
  next
    case False
    with 1 have "digitsValue (digitsOf (n div 10)) = n div 10" by simp
    with False show ?thesis
      by (simp add: digitsOf.simps [of n] digitsValue_def digitValue_digitChar)
  qed
qed

lemma parseInt_digitsOf: "parseInt (digitsOf n) = Num (int n)"
proof -
  obtain d where d: "d < 10" "hd (digitsOf n) = digitChar d" using hd_digitsOf by blast
  have ne: "digitsOf n \<noteq> []" by (rule digitsOf_nonempty)
  have "\<not> isWhiteSpace (hd (digitsOf n))" using d digitChar_not_space by simp
  with ne have ws: "dropWhile isWhiteSpace (digitsOf n) = digitsOf n"
    by (cases "digitsOf n") auto
  have sg: "hd (digitsOf n) \<noteq> CHR ''-''" "hd (digitsOf n) \<noteq> CHR ''+''"
    using d digitChar_not_minus digitChar_not_plus by simp_all
  have tk: "takeWhile isDigit (digitsOf n) = digitsOf n"
    using digitsOf_all_digits by simp
  show ?thesis
    by (simp add: parseInt_def Let_def ws sg tk ne digitsValue_digitsOf)
qed

lemma parseInt_toString: "parseInt (toString n) = Num n"
proof (cases "n < 0")
  case False
  then show ?thesis by (simp add: toString_def parseInt_digitsOf)
next
  case True
  have sp: "\<not> isWhiteSpace (CHR ''-'')" by (simp add: isWhiteSpace_def)
  have tk: "takeWhile isDigit (digitsOf (nat (- n))) = digitsOf (nat (- n))"
    using digitsOf_all_digits by simp
  from True show ?thesis
    by (simp add: toString_def parseInt_def Let_def sp tk digitsOf_nonempty digitsValue_digitsOf)
qed

lemma length_digitsOf_ge2: "10 \<le> n \<Longrightarrow> 2 \<le> length (digitsOf n)"
  by (subst digitsOf.simps) (simp add: Suc_le_eq digitsOf_nonempty)

lemma sliceLast2_digitsOf:
  assumes "10 \<le> n"
  shows "sliceLast2 (digitsOf n) = [digitChar (n div 10 mod 10), digitChar (n mod 10)]"
proof -
  have a: "digitsOf n = digitsOf (n div 10) @ [digitChar (n mod 10)]"
    using assms by (subst digitsOf.simps) simp
  have b: "\<exists>p. digitsOf (n div 10) = p @ [digitChar (n div 10 mod 10)]"
    by (subst digitsOf.simps) auto
  then obtain p where p: "digitsOf (n div 10) = p @ [digitChar (n div 10 mod 10)]" ..
  show ?thesis by (simp add: a p sliceLast2_def)
qed

lemma jsRem_2_iff: "jsRem n 2 = 0 \<longleftrightarrow> even n"
  by (auto simp: jsRem_def sgn_if)

lemma last_two_digits_nat:
  fixes n :: nat
  shows "n mod 100 div 10 = n div 10 mod 10" and "n mod 100 mod 10 = n mod 10"
proof -
  have e: "n mod (10 * 10) = 10 * (n div 10 mod 10) + n mod 10"
    by (rule mod_mult2_eq)
  then have f: "n mod 100 = 10 * (n div 10 mod 10) + n mod 10" by simp
  show "n mod 100 div 10 = n div 10 mod 10" by (simp add: f)
  show "n mod 100 mod 10 = n mod 10" by (simp add: f)
qed

lemma twoDigitSuffix_nat:
  assumes "0 \<le> m"
  shows "twoDigitSuffix m = [digitChar (nat m div 10 mod 10), digitChar (nat m mod 10)]"
proof -
  have a: "nat (m mod 100) = nat m mod 100"
    using assms by (simp add: nat_mod_distrib)
  show ?thesis by (simp add: twoDigitSuffix_def a last_two_digits_nat)
qed

lemma sliceLast2_toString:
  assumes "10 \<le> m"
  shows "sliceLast2 (toString m) = twoDigitSuffix m"
proof -
  have "10 \<le> nat m" using assms by simp
  then have "sliceLast2 (digitsOf (nat m)) = [digitChar (nat m div 10 mod 10), digitChar (nat m mod 10)]"
    by (rule sliceLast2_digitsOf)
  with assms show ?thesis by (simp add: toString_def twoDigitSuffix_nat)
qed

lemma splitHead_no_hyphen: "CHR ''-'' \<notin> set (splitHead y)"
  unfolding splitHead_def by (auto dest: set_takeWhileD)

lemma parseInt_nonneg:
  assumes "CHR ''-'' \<notin> set str" and "parseInt str = Num S"
  shows "0 \<le> S"
proof -
  let ?s = "dropWhile isWhiteSpace str"
  have "CHR ''-'' \<notin> set ?s" using assms(1) set_dropWhileD by fastforce
  then have h: "\<not> (?s \<noteq> [] \<and> hd ?s = CHR ''-'')" by (cases ?s) auto
  define z where "z = takeWhile isDigit
      (if ?s \<noteq> [] \<and> (hd ?s = CHR ''-'' \<or> hd ?s = CHR ''+'') then tl ?s else ?s)"
  have "parseInt str = (if z = [] then NaN else Num (int (digitsValue z)))"
    unfolding parseInt_def Let_def z_def [symmetric] using h by auto
  with assms(2) show ?thesis by (cases "z = []") auto
qed


text \<open>Rules that evaluate the primitives on literals.\<close>

lemma digitChar_numerals:
  "digitChar 0 = CHR ''0''" "digitChar 1 = CHR ''1''" "digitChar 2 = CHR ''2''"
  "digitChar 3 = CHR ''3''" "digitChar 4 = CHR ''4''" "digitChar 5 = CHR ''5''"
  "digitChar 6 = CHR ''6''" "digitChar 7 = CHR ''7''" "digitChar 8 = CHR ''8''"
  "digitChar 9 = CHR ''9''" "digitChar (Suc 0) = CHR ''1''"
  by code_simp+

lemmas js_eval = parseInt_def splitHead_def isWhiteSpace_def isDigit_def digitsValue_def
  digitValue_def toString_def digitsOf.simps digitChar_numerals sliceLast2_def Let_def
  yearLabel_def nextYearLabel_def prevYearLabel_def twoDigitSuffix_def


section \<open>Year-label arithmetic (C7)\<close>

text \<open>
  C7, the claim as written: the backward-derived label of \<open>"S-YY"\<close> is \<open>(S-1)-ZZ\<close> with
  \<open>ZZ\<close> the last two digits of \<open>S+1\<close>.  The handler computes the suffix from
  \<open>prevStart + 1\<close>, which is \<open>S\<close>: the label \<open>"2025-26"\<close> goes back to \<open>"2024-25"\<close>, not
  to \<open>"2024-26"\<close>.  Nor is a suffix padded: \<open>slice(-2)\<close> of a one-digit number is that
  digit, so \<open>"3-04"\<close> goes forward to \<open>"4-5"\<close>.
\<close>

theorem C7_backward_suffix_counterexample:
  "parseInt (splitHead ''2025-26'') = Num 2025
   \<and> prevYearLabel ''2025-26'' = ''2024-25''
   \<and> prevYearLabel ''2025-26'' \<noteq> toString (2025 - 1) @ ''-'' @ twoDigitSuffix (2025 + 1)
   \<and> parseInt (splitHead ''3-04'') = Num 3
   \<and> nextYearLabel ''3-04'' = ''4-5''
   \<and> nextYearLabel ''3-04'' \<noteq> toString (3 + 1) @ ''-'' @ twoDigitSuffix (3 + 2)"
  by (simp add: js_eval)


text \<open>
  C7, amended: for every academic-year label whose text in front of the first hyphen parses
  to a start year \<open>S\<close> (which is then never negative) with \<open>S + 2\<close> a safe integer, the
  forward-derived label is \<open>(S+1)-ZZ\<close> with \<open>ZZ\<close> the last two digits of \<open>S+2\<close>, zero-padded,
  whenever \<open>S \<ge> 8\<close>, and the backward-derived label is \<open>(S-1)-ZZ\<close> with \<open>ZZ\<close> the last two
  digits of \<open>S\<close>, zero-padded, whenever \<open>S \<ge> 10\<close>.  Century boundaries are covered.  (For
  smaller start years \<open>slice(-2)\<close> returns a single digit and nothing pads it; from \<open>2^53\<close>
  on JavaScript's arithmetic rounds.)
\<close>

theorem C7_year_label_arithmetic:
  assumes "parseInt (splitHead y) = Num S" and "safeInteger (S + 2)"
  shows "0 \<le> S
       \<and> (8 \<le> S \<longrightarrow> nextYearLabel y = toString (S + 1) @ ''-'' @ twoDigitSuffix (S + 2))
       \<and> (10 \<le> S \<longrightarrow> prevYearLabel y = toString (S - 1) @ ''-'' @ twoDigitSuffix S)"
proof (intro conjI impI)
  show "0 \<le> S" using splitHead_no_hyphen assms(1) by (rule parseInt_nonneg)
next
  assume "8 \<le> S"
  then have "sliceLast2 (toString (S + 2)) = twoDigitSuffix (S + 2)"
    by (intro sliceLast2_toString) simp
  moreover have "S + 1 + 1 = S + 2" by simp
  ultimately show "nextYearLabel y = toString (S + 1) @ ''-'' @ twoDigitSuffix (S + 2)"
    unfolding nextYearLabel_def yearLabel_def assms(1) numAdd.simps numToString.simps
    by (simp only:)
next
  assume "10 \<le> S"
  then have "sliceLast2 (toString S) = twoDigitSuffix S"
    by (rule sliceLast2_toString)
  moreover have "S + - 1 + 1 = S" "S + - 1 = S - 1" by simp_all
  ultimately show "prevYearLabel y = toString (S - 1) @ ''-'' @ twoDigitSuffix S"
    unfolding prevYearLabel_def yearLabel_def assms(1) numAdd.simps numToString.simps
    by (simp only:)
qed


text \<open>The century boundary of the specification: \<open>"2099-00"\<close> goes forward to
  \<open>"2100-01"\<close>, and back to \<open>"2098-99"\<close>.\<close>

theorem C7_year_label_arithmetic_witness:
  "nextYearLabel ''2099-00'' = ''2100-01'' \<and> prevYearLabel ''2099-00'' = ''2098-99''"
proof -
  have h: "parseInt (splitHead ''2099-00'') = Num 2099" by (simp add: js_eval)
  have r: "safeInteger (2099 + 2)" by (simp add: safeInteger_def)
  have e: "toString 2100 = ''2100''" "twoDigitSuffix 2101 = ''01''"
          "toString 2098 = ''2098''" "twoDigitSuffix 2099 = ''99''"
    by (simp_all add: js_eval)
  from C7_year_label_arithmetic [OF h r] show ?thesis by (simp add: e)
qed


section \<open>The loops as folds over decisions\<close>

subsection \<open>Updates touch one document\<close>

lemma sid_applySet: "sid (applySet p d) = sid d"
  by (simp add: applySet_def split: option.splits)

lemma courseId_applySet: "courseId (applySet p d) = courseId d"
  by (simp add: applySet_def split: option.splits)

lemma map_sid_updateOne: "map sid (updateOne i p ds) = map sid ds"
  by (induction ds) (simp_all add: sid_applySet)

lemma findById_updateOne:
  "findById j (updateOne i p ds) =
     (if j = i then map_option (applySet p) (findById i ds) else findById j ds)"
  by (induction ds) (auto simp: findById_def sid_applySet)

lemma findById_member:
  "distinct (map sid ds) \<Longrightarrow> s \<in> set ds \<Longrightarrow> findById (sid s) ds = Some s"
  by (induction ds) (auto simp: findById_def)

lemma findById_none: "i \<notin> sid ` set ds \<Longrightarrow> findById i ds = None"
  by (induction ds) (auto simp: findById_def)

lemma set_findStudents: "set (findStudents ids ds) = {d \<in> set ds. sid d \<in> set ids}"
  by (auto simp: findStudents_def)

lemma distinct_findStudents:
  "distinct (map sid ds) \<Longrightarrow> distinct (map sid (findStudents ids ds))"
  by (simp add: findStudents_def distinct_map_filter)

subsection \<open>Documents after a run of decisions\<close>

lemma map_sid_docsAfter: "map sid (docsAfter dec xs ds) = map sid ds"
  by (induction xs arbitrary: ds) (simp_all add: map_sid_updateOne split: decision.splits)

lemma findById_docsAfter_other:
  "j \<notin> sid ` set xs \<Longrightarrow> findById j (docsAfter dec xs ds) = findById j ds"
  by (induction xs arbitrary: ds) (auto simp: findById_updateOne split: decision.splits)

lemma findById_docsAfter:
  assumes "distinct (map sid xs)" and "s \<in> set xs"
  shows "findById (sid s) (docsAfter dec xs ds) =
           (case dec s of
              Skip it \<Rightarrow> findById (sid s) ds
            | Apply p a \<Rightarrow> map_option (applySet p) (findById (sid s) ds))"
  using assms
proof (induction xs arbitrary: ds)
  case Nil
  then show ?case by simp
next
  case (Cons x xs)
  show ?case
  proof (cases "s = x")
    case True
    with Cons.prems have "sid s \<notin> sid ` set xs" by auto
    then have "findById (sid s) (docsAfter dec (x # xs) ds) =
                 findById (sid s) (case dec x of Skip it \<Rightarrow> ds | Apply p a \<Rightarrow> updateOne (sid x) p ds)"
      by (simp add: findById_docsAfter_other)
    with True show ?thesis by (simp add: findById_updateOne split: decision.splits)
  next
    case False
    with Cons.prems have in_xs: "s \<in> set xs" by simp
    then have "sid s \<in> sid ` set xs" by (rule imageI)
    with Cons.prems have ne: "sid s \<noteq> sid x" by auto
    from Cons.prems have "distinct (map sid xs)" by simp
    from Cons.IH [OF this in_xs] ne show ?thesis
      by (simp add: findById_updateOne split: decision.splits)
  qed
qed

subsection \<open>Entries pushed by a run of decisions\<close>

lemma skippedOf_member:
  "s \<in> set xs \<Longrightarrow> dec s = Skip it \<Longrightarrow> it \<in> set (skippedOf dec xs)"
  by (induction xs) (auto split: decision.splits)

lemma appliedOf_member:
  "s \<in> set xs \<Longrightarrow> dec s = Apply p a \<Longrightarrow> a \<in> set (appliedOf dec xs)"
  by (induction xs) (auto split: decision.splits)

lemma count_partition:
  assumes "\<And>s it. dec s = Skip it \<Longrightarrow> sk_studentId it = sid s"
      and "\<And>s p a. dec s = Apply p a \<Longrightarrow> idOf a = sid s"
  shows "count_list (map idOf (appliedOf dec xs)) i + count_list (map sk_studentId (skippedOf dec xs)) i
           = count_list (map sid xs) i"
proof (induction xs)
  case Nil
  show ?case by simp
next
  case (Cons x xs)
  show ?case
  proof (cases "dec x")
    case (Skip it)
    with assms(1) have "sk_studentId it = sid x" by simp
    with Skip Cons.IH show ?thesis by simp
  next
    case (Apply p a)
    with assms(2) have "idOf a = sid x" by simp
    with Apply Cons.IH show ?thesis by simp
  qed
qed

lemma count_list_distinct:
  "distinct ys \<Longrightarrow> count_list ys i = (if i \<in> set ys then 1 else 0)"
  by (induction ys) auto

subsection \<open>The loop bodies compute the decisions\<close>

lemma promoteOne_decision:
  assumes "promoteOne cs s st = Inr st'"
  shows "p_docs st' = docsAfter (promoteDecision cs) [s] (p_docs st)
       \<and> promoted st' = promoted st @ appliedOf (promoteDecision cs) [s]
       \<and> p_skipped st' = p_skipped st @ skippedOf (promoteDecision cs) [s]"
  using assms
  by (auto simp: promoteOne_def promoteDecision_def Let_def
           split: sum.splits option.splits jsnum.splits if_splits)

lemma promoteLoop_decisions:
  "promoteLoop cs xs st = Inr st' \<Longrightarrow>
     p_docs st' = docsAfter (promoteDecision cs) xs (p_docs st)
   \<and> promoted st' = promoted st @ appliedOf (promoteDecision cs) xs
   \<and> p_skipped st' = p_skipped st @ skippedOf (promoteDecision cs) xs"
proof (induction xs arbitrary: st)
  case Nil
  then show ?case by simp
next
  case (Cons x xs)
  from Cons.prems obtain st1 where one: "promoteOne cs x st = Inr st1"
    and rest: "promoteLoop cs xs st1 = Inr st'"
    by (auto split: sum.splits)
  from promoteOne_decision [OF one] Cons.IH [OF rest] show ?case
    by (simp split: decision.splits)
qed

lemma rollbackOne_decision:
  assumes "rollbackOne r s st = Inr st'"
  shows "r_docs st' = docsAfter (rollbackDecision r) [s] (r_docs st)
       \<and> rolledBack st' = rolledBack st @ appliedOf (rollbackDecision r) [s]
       \<and> r_skipped st' = r_skipped st @ skippedOf (rollbackDecision r) [s]"
  using assms
  by (auto simp: rollbackOne_def rollbackDecision_def Let_def
           split: sum.splits option.splits jsnum.splits if_splits)

lemma rollbackLoop_decisions:
  "rollbackLoop r xs st = Inr st' \<Longrightarrow>
     r_docs st' = docsAfter (rollbackDecision r) xs (r_docs st)
   \<and> rolledBack st' = rolledBack st @ appliedOf (rollbackDecision r) xs
   \<and> r_skipped st' = r_skipped st @ skippedOf (rollbackDecision r) xs"
proof (induction xs arbitrary: st)
  case Nil
  then show ?case by simp
next
  case (Cons x xs)
  from Cons.prems obtain st1 where one: "rollbackOne r x st = Inr st1"
    and rest: "rollbackLoop r xs st1 = Inr st'"
    by (auto split: sum.splits)
  from rollbackOne_decision [OF one] Cons.IH [OF rest] show ?case
    by (simp split: decision.splits)
qed

section \<open>The handlers on a successful batch\<close>

lemma promote_success:
  assumes "promoteStudentsToNextSemester req calls w = (resp, w')" and "status resp = 200"
      and "studentIds req = IdArray ids"
  shows "promotedIn resp = appliedOf (promoteDecision (courses w)) (findStudents ids (students w))
       \<and> skippedIn resp = skippedOf (promoteDecision (courses w)) (findStudents ids (students w))
       \<and> students w' = docsAfter (promoteDecision (courses w)) (findStudents ids (students w)) (students w)
       \<and> courses w' = courses w \<and> attendances w' = attendances w"
  using assms
  by (auto simp: promoteStudentsToNextSemester_def Let_def promotedIn_def skippedIn_def
           split: if_splits sum.splits dest!: promoteLoop_decisions)

lemma rollback_success:
  assumes "rollbackStudents req calls w = (resp, w')" and "status resp = 200"
      and "studentIds req = IdArray ids"
  shows "rolledBackIn resp =
           appliedOf (rollbackDecision (resetAttendance req)) (findStudents ids (students w))
       \<and> skippedIn resp =
           skippedOf (rollbackDecision (resetAttendance req)) (findStudents ids (students w))
       \<and> students w' =
           docsAfter (rollbackDecision (resetAttendance req)) (findStudents ids (students w)) (students w)
       \<and> courses w' = courses w \<and> attendances w' = attendances w"
  using assms
  by (auto simp: rollbackStudents_def Let_def rolledBackIn_def skippedIn_def
           split: if_splits sum.splits dest!: rollbackLoop_decisions)

text \<open>What a batch does to one resolved student, given the student's decision.\<close>

lemma resolved_member:
  "s \<in> set (students w) \<Longrightarrow> sid s \<in> set ids \<Longrightarrow> s \<in> set (findStudents ids (students w))"
  by (simp add: set_findStudents)

lemma count_list_pos: "x \<in> set ys \<Longrightarrow> 0 < count_list ys x"
  by (induction ys) auto

lemma batch_skip:
  assumes uniq: "distinct (map sid ds)" and s: "s \<in> set ds" "sid s \<in> set ids"
      and d: "dec s = Skip it"
      and ids: "\<And>x p a. dec x = Apply p a \<Longrightarrow> idOf a = sid x"
              "\<And>x j. dec x = Skip j \<Longrightarrow> sk_studentId j = sid x"
  shows "it \<in> set (skippedOf dec (findStudents ids ds))
       \<and> sid s \<notin> idOf ` set (appliedOf dec (findStudents ids ds))
       \<and> findById (sid s) (docsAfter dec (findStudents ids ds) ds) = Some s"
proof -
  let ?xs = "findStudents ids ds"
  have mem: "s \<in> set ?xs" using s by (simp add: set_findStudents)
  have dx: "distinct (map sid ?xs)" using uniq by (rule distinct_findStudents)
  have a: "it \<in> set (skippedOf dec ?xs)" using mem d by (rule skippedOf_member)
  have "sk_studentId it = sid s" using d by (rule ids(2))
  with a have "sid s \<in> set (map sk_studentId (skippedOf dec ?xs))" by force
  then have pos: "0 < count_list (map sk_studentId (skippedOf dec ?xs)) (sid s)"
    by (rule count_list_pos)
  have "count_list (map idOf (appliedOf dec ?xs)) (sid s)
          + count_list (map sk_studentId (skippedOf dec ?xs)) (sid s)
        = count_list (map sid ?xs) (sid s)"
    using ids(2) ids(1) by (rule count_partition)
  also have "\<dots> = 1" using dx mem by (simp add: count_list_distinct)
  finally have "count_list (map idOf (appliedOf dec ?xs)) (sid s) = 0" using pos by simp
  then have b: "sid s \<notin> idOf ` set (appliedOf dec ?xs)"
    by (simp add: count_list_0_iff)
  have c: "findById (sid s) (docsAfter dec ?xs ds) = Some s"
    using findById_docsAfter [OF dx mem, of dec ds] d findById_member [OF uniq s(1)] by simp
  from a b c show ?thesis by simp
qed

lemma batch_apply:
  assumes uniq: "distinct (map sid ds)" and s: "s \<in> set ds" "sid s \<in> set ids"
      and d: "dec s = Apply p a"
      and ids: "\<And>x p a. dec x = Apply p a \<Longrightarrow> idOf a = sid x"
              "\<And>x j. dec x = Skip j \<Longrightarrow> sk_studentId j = sid x"
  shows "a \<in> set (appliedOf dec (findStudents ids ds))
       \<and> sid s \<notin> sk_studentId ` set (skippedOf dec (findStudents ids ds))
       \<and> findById (sid s) (docsAfter dec (findStudents ids ds) ds) = Some (applySet p s)"
proof -
  let ?xs = "findStudents ids ds"
  have mem: "s \<in> set ?xs" using s by (simp add: set_findStudents)
  have dx: "distinct (map sid ?xs)" using uniq by (rule distinct_findStudents)
  have a: "a \<in> set (appliedOf dec ?xs)" using mem d by (rule appliedOf_member)
  have "idOf a = sid s" using d by (rule ids(1))
  with a have "sid s \<in> set (map idOf (appliedOf dec ?xs))" by force
  then have pos: "0 < count_list (map idOf (appliedOf dec ?xs)) (sid s)"
    by (rule count_list_pos)
  have "count_list (map idOf (appliedOf dec ?xs)) (sid s)
          + count_list (map sk_studentId (skippedOf dec ?xs)) (sid s)
        = count_list (map sid ?xs) (sid s)"
    using ids(2) ids(1) by (rule count_partition)
  also have "\<dots> = 1" using dx mem by (simp add: count_list_distinct)
  finally have "count_list (map sk_studentId (skippedOf dec ?xs)) (sid s) = 0" using pos by simp
  then have b: "sid s \<notin> sk_studentId ` set (skippedOf dec ?xs)"
    by (simp add: count_list_0_iff)
  have c: "findById (sid s) (docsAfter dec ?xs ds) = Some (applySet p s)"
    using findById_docsAfter [OF dx mem, of dec ds] d findById_member [OF uniq s(1)] by simp
  from a b c show ?thesis by simp
qed

lemma promoteDecision_ids:
  "promoteDecision cs x = Apply p a \<Longrightarrow> pr_studentId a = sid x"
  "promoteDecision cs x = Skip j \<Longrightarrow> sk_studentId j = sid x"
  by (auto simp: promoteDecision_def Let_def split: option.splits jsnum.splits if_splits)

lemma rollbackDecision_ids:
  "rollbackDecision r x = Apply p a \<Longrightarrow> rb_studentId a = sid x"
  "rollbackDecision r x = Skip j \<Longrightarrow> sk_studentId j = sid x"
  by (auto simp: rollbackDecision_def Let_def split: option.splits jsnum.splits if_splits)

section \<open>The worked example, evaluated\<close>

lemmas handler_eval =
  promoteStudentsToNextSemester_def rollbackStudents_def storageCall_def findStudents_def
  findOneCourse_def findById_def promoteOne_def rollbackOne_def applySet_def jsRem_def
  promotedIn_def skippedIn_def rolledBackIn_def exampleWorld_def exampleRequest_def js_eval

lemma promote_example:
  "promoteStudentsToNextSemester (exampleRequest r) None exampleWorld =
     (\<lparr>status = 200,
       body = PromoteSummary 6
         [\<lparr>pr_studentId = 1, pr_fromSem = 4, pr_toSem = 5, pr_academicYear = ''2025-26''\<rparr>,
          \<lparr>pr_studentId = 4, pr_fromSem = 0, pr_toSem = 1, pr_academicYear = ''2025-26''\<rparr>]
         [\<lparr>sk_studentId = 2, reason = ''Final semester''\<rparr>,
          \<lparr>sk_studentId = 3, reason = ''Invalid semester''\<rparr>,
          \<lparr>sk_studentId = 5, reason = ''Course not found''\<rparr>]\<rparr>,
      exampleWorld\<lparr>students :=
        [\<lparr>sid = 1, courseId = ''MCA'', semId = ''5'', academicYear = ''2025-26''\<rparr>,
         \<lparr>sid = 2, courseId = ''MCA'', semId = ''8'', academicYear = ''2024-25''\<rparr>,
         \<lparr>sid = 3, courseId = ''MCA'', semId = ''abc'', academicYear = ''2024-25''\<rparr>,
         \<lparr>sid = 4, courseId = ''MCA'', semId = ''1'', academicYear = ''2025-26''\<rparr>,
         \<lparr>sid = 5, courseId = ''BBA'', semId = ''x7'', academicYear = ''2024-25''\<rparr>]\<rparr>)"
  by (simp add: handler_eval)

lemma rollback_example:
  "rollbackStudents (exampleRequest False) None exampleWorld =
     (\<lparr>status = 200,
       body = RollbackSummary 6
         [\<lparr>rb_studentId = 1, rb_sem = None, rb_fromSem = Some ''4'', rb_toSem = Some ''3'',
           rb_academicYearFrom = ''2024-25'', rb_academicYearTo = ''2023-24'',
           rb_type = ''NORMAL_ROLLBACK''\<rparr>,
          \<lparr>rb_studentId = 2, rb_sem = None, rb_fromSem = Some ''8'', rb_toSem = Some ''7'',
           rb_academicYearFrom = ''2024-25'', rb_academicYearTo = ''2023-24'',
           rb_type = ''NORMAL_ROLLBACK''\<rparr>]
         [\<lparr>sk_studentId = 3, reason = ''Invalid semester value''\<rparr>,
          \<lparr>sk_studentId = 4, reason = ''Already in first semester''\<rparr>,
          \<lparr>sk_studentId = 5, reason = ''Invalid semester value''\<rparr>]\<rparr>,
      exampleWorld\<lparr>students :=
        [\<lparr>sid = 1, courseId = ''MCA'', semId = ''3'', academicYear = ''2023-24''\<rparr>,
         \<lparr>sid = 2, courseId = ''MCA'', semId = ''7'', academicYear = ''2023-24''\<rparr>,
         \<lparr>sid = 3, courseId = ''MCA'', semId = ''abc'', academicYear = ''2024-25''\<rparr>,
         \<lparr>sid = 4, courseId = ''MCA'', semId = ''0'', academicYear = ''2024-25''\<rparr>,
         \<lparr>sid = 5, courseId = ''BBA'', semId = ''x7'', academicYear = ''2024-25''\<rparr>]\<rparr>)"
  by (simp add: handler_eval)

lemma reset_example:
  "rollbackStudents (exampleRequest True) None exampleWorld =
     (\<lparr>status = 200,
       body = RollbackSummary 6
         [\<lparr>rb_studentId = 1, rb_sem = Some ''4'', rb_fromSem = None, rb_toSem = None,
           rb_academicYearFrom = ''2024-25'', rb_academicYearTo = ''2025-26'',
           rb_type = ''RESET_YEAR_ONLY''\<rparr>,
          \<lparr>rb_studentId = 2, rb_sem = Some ''8'', rb_fromSem = None, rb_toSem = None,
           rb_academicYearFrom = ''2024-25'', rb_academicYearTo = ''2025-26'',
           rb_type = ''RESET_YEAR_ONLY''\<rparr>,
          \<lparr>rb_studentId = 4, rb_sem = Some ''0'', rb_fromSem = None, rb_toSem = None,
           rb_academicYearFrom = ''2024-25'', rb_academicYearTo = ''2025-26'',
           rb_type = ''RESET_YEAR_ONLY''\<rparr>]
         [\<lparr>sk_studentId = 3, reason = ''Invalid semester value''\<rparr>,
          \<lparr>sk_studentId = 5, reason = ''Invalid semester value''\<rparr>]\<rparr>,
      exampleWorld\<lparr>students :=
        [\<lparr>sid = 1, courseId = ''MCA'', semId = ''4'', academicYear = ''2025-26''\<rparr>,
         \<lparr>sid = 2, courseId = ''MCA'', semId = ''8'', academicYear = ''2025-26''\<rparr>,
         \<lparr>sid = 3, courseId = ''MCA'', semId = ''abc'', academicYear = ''2024-25''\<rparr>,
         \<lparr>sid = 4, courseId = ''MCA'', semId = ''0'', academicYear = ''2025-26''\<rparr>,
         \<lparr>sid = 5, courseId = ''BBA'', semId = ''x7'', academicYear = ''2024-25''\<rparr>]\<rparr>)"
  by (simp add: handler_eval)

section \<open>Advance (C1, C3)\<close>

lemma nextYearLabel_start:
  "parseInt (splitHead y) = Num S \<Longrightarrow>
     nextYearLabel y = toString (S + 1) @ ''-'' @ sliceLast2 (toString (S + 2))"
proof -
  assume a: "parseInt (splitHead y) = Num S"
  have "S + 1 + 1 = S + 2" by simp
  then show ?thesis
    unfolding nextYearLabel_def yearLabel_def a numAdd.simps numToString.simps
    by (simp only:)
qed

lemma prevYearLabel_start:
  "parseInt (splitHead y) = Num S \<Longrightarrow>
     prevYearLabel y = toString (S - 1) @ ''-'' @ sliceLast2 (toString S)"
proof -
  assume a: "parseInt (splitHead y) = Num S"
  have "S + - 1 + 1 = S" "S + - 1 = S - 1" by simp_all
  then show ?thesis
    unfolding prevYearLabel_def yearLabel_def a numAdd.simps numToString.simps
    by (simp only:)
qed

lemma promoteDecision_apply:
  assumes "findOneCourse cs (courseId s) = Some c" and "parseInt (semId s) = Num n"
      and "n < No_of_Sem c"
  shows "promoteDecision cs s =
           Apply \<lparr>set_semId = Some (toString (n + 1)),
                  set_academicYear =
                    Some (if even n then nextYearLabel (academicYear s) else academicYear s)\<rparr>
                 \<lparr>pr_studentId = sid s, pr_fromSem = n, pr_toSem = n + 1,
                  pr_academicYear =
                    (if even n then nextYearLabel (academicYear s) else academicYear s)\<rparr>"
  using assms by (simp add: promoteDecision_def Let_def jsRem_2_iff)

lemma promoteDecision_final:
  assumes "findOneCourse cs (courseId s) = Some c" and "parseInt (semId s) = Num n"
      and "No_of_Sem c \<le> n"
  shows "promoteDecision cs s = Skip \<lparr>sk_studentId = sid s, reason = ''Final semester''\<rparr>"
  using assms by (simp add: promoteDecision_def)

text \<open>
  C1: for every resolved student whose semester parses to \<open>n\<close> with \<open>n\<close> below the course's
  number of semesters, a successful Advance stores the semester \<open>n + 1\<close> as a decimal
  string (which reads back as \<open>n + 1\<close>), keeps \<open>academicYear\<close> when \<open>n\<close> is odd and stores
  the forward label when \<open>n\<close> is even: start year plus one and the suffix recomputed from
  start year plus two, for a label with start year \<open>S\<close>.  The student is reported in
  \<open>promoted\<close> and not in \<open>skipped\<close>.  The numbers are safe integers: \<open>n\<close> is one, and when
  the year changes the label is in range.
\<close>

theorem C1_advance_increments_semester:
  assumes run: "promoteStudentsToNextSemester req calls w = (resp, w')"
      and ok: "status resp = 200"
      and ids: "studentIds req = IdArray ids"
      and uniq: "distinct (map sid (students w))"
      and s: "s \<in> set (students w)" "sid s \<in> set ids"
      and c: "findOneCourse (courses w) (courseId s) = Some c"
      and n: "parseInt (semId s) = Num n" "n < No_of_Sem c"
      and safe: "safeInteger n"
      and yr: "even n \<longrightarrow> safeStartYear (academicYear s)"
  shows "findById (sid s) (students w') =
           Some (s\<lparr>semId := toString (n + 1),
                   academicYear :=
                     (if even n then nextYearLabel (academicYear s) else academicYear s)\<rparr>)
       \<and> parseInt (toString (n + 1)) = Num (n + 1)
       \<and> (\<forall>S. even n \<longrightarrow> parseInt (splitHead (academicYear s)) = Num S \<longrightarrow>
              nextYearLabel (academicYear s) =
                toString (S + 1) @ ''-'' @ sliceLast2 (toString (S + 2)))
       \<and> \<lparr>pr_studentId = sid s, pr_fromSem = n, pr_toSem = n + 1,
           pr_academicYear =
             (if even n then nextYearLabel (academicYear s) else academicYear s)\<rparr>
           \<in> set (promotedIn resp)
       \<and> sid s \<notin> sk_studentId ` set (skippedIn resp)"
proof -
  note d = promoteDecision_apply [OF c n]
  note b = batch_apply [where dec = "promoteDecision (courses w)" and idOf = pr_studentId,
      OF uniq s d promoteDecision_ids]
  note r = promote_success [OF run ok ids]
  have "applySet \<lparr>set_semId = Some (toString (n + 1)),
                  set_academicYear =
                    Some (if even n then nextYearLabel (academicYear s) else academicYear s)\<rparr> s
        = s\<lparr>semId := toString (n + 1),
             academicYear := (if even n then nextYearLabel (academicYear s) else academicYear s)\<rparr>"
    by (simp add: applySet_def)
  with b r show ?thesis
    by (simp add: parseInt_toString nextYearLabel_start)
qed

theorem C1_advance_increments_semester_witness:
  "findById 1 (students (snd (promoteStudentsToNextSemester (exampleRequest False) None exampleWorld)))
     = Some \<lparr>sid = 1, courseId = ''MCA'', semId = ''5'', academicYear = ''2025-26''\<rparr>
   \<and> nextYearLabel ''2024-25'' = ''2025-26''"
proof -
  let ?s = "\<lparr>sid = 1, courseId = ''MCA'', semId = ''4'', academicYear = ''2024-25''\<rparr>"
  let ?c = "\<lparr>Course_Id = ''MCA'', No_of_Sem = 8\<rparr>"
  let ?out = "promoteStudentsToNextSemester (exampleRequest False) None exampleWorld"
  have run: "?out = (fst ?out, snd ?out)" by simp
  have ok: "status (fst ?out) = 200" by (simp add: promote_example)
  have ids: "studentIds (exampleRequest False) = IdArray [1, 2, 3, 4, 5, 9]"
    by (simp add: exampleRequest_def)
  have uniq: "distinct (map sid (students exampleWorld))" by (simp add: exampleWorld_def)
  have s: "?s \<in> set (students exampleWorld)" "sid ?s \<in> set [1, 2, 3, 4, 5, 9]"
    by (simp_all add: exampleWorld_def)
  have c: "findOneCourse (courses exampleWorld) (courseId ?s) = Some ?c"
    by (simp add: exampleWorld_def findOneCourse_def)
  have n: "parseInt (semId ?s) = Num 4" "4 < No_of_Sem ?c" by (simp_all add: js_eval)
  have safe: "safeInteger 4" by (simp add: safeInteger_def)
  have yr: "even (4::int) \<longrightarrow> safeStartYear (academicYear ?s)"
    by (simp add: safeStartYear_def safeInteger_def js_eval)
  have y: "parseInt (splitHead ''2024-25'') = Num 2024" by (simp add: js_eval)
  have e: "toString 5 = ''5''" "toString 2025 = ''2025''" "sliceLast2 (toString 2026) = ''26''"
    by (simp_all add: js_eval)
  from C1_advance_increments_semester [OF run ok ids uniq s c n safe yr] y e
  show ?thesis by simp
qed

text \<open>
  C3: for every resolved student whose semester parses to a number that is at least the
  course's number of semesters, a successful Advance pushes a skip with the reason
  \<open>"Final semester"\<close> (the text of FINAL_SEMESTER), does not report the student in
  \<open>promoted\<close>, and leaves the stored document as it was.
\<close>

theorem C3_final_semester_skipped:
  assumes run: "promoteStudentsToNextSemester req calls w = (resp, w')"
      and ok: "status resp = 200"
      and ids: "studentIds req = IdArray ids"
      and uniq: "distinct (map sid (students w))"
      and s: "s \<in> set (students w)" "sid s \<in> set ids"
      and c: "findOneCourse (courses w) (courseId s) = Some c"
      and n: "parseInt (semId s) = Num n" "No_of_Sem c \<le> n"
  shows "\<lparr>sk_studentId = sid s, reason = ''Final semester''\<rparr> \<in> set (skippedIn resp)
       \<and> sid s \<notin> pr_studentId ` set (promotedIn resp)
       \<and> findById (sid s) (students w') = Some s"
proof -
  note d = promoteDecision_final [OF c n]
  note b = batch_skip [where dec = "promoteDecision (courses w)" and idOf = pr_studentId,
      OF uniq s d promoteDecision_ids]
  note r = promote_success [OF run ok ids]
  from b r show ?thesis by simp
qed

theorem C3_final_semester_skipped_witness:
  "\<lparr>sk_studentId = 2, reason = ''Final semester''\<rparr>
     \<in> set (skippedIn (fst (promoteStudentsToNextSemester (exampleRequest False) None exampleWorld)))
   \<and> findById 2 (students (snd (promoteStudentsToNextSemester (exampleRequest False) None exampleWorld)))
     = Some \<lparr>sid = 2, courseId = ''MCA'', semId = ''8'', academicYear = ''2024-25''\<rparr>"
proof -
  let ?s = "\<lparr>sid = 2, courseId = ''MCA'', semId = ''8'', academicYear = ''2024-25''\<rparr>"
  let ?c = "\<lparr>Course_Id = ''MCA'', No_of_Sem = 8\<rparr>"
  let ?out = "promoteStudentsToNextSemester (exampleRequest False) None exampleWorld"
  have run: "?out = (fst ?out, snd ?out)" by simp
  have ok: "status (fst ?out) = 200" by (simp add: promote_example)
  have ids: "studentIds (exampleRequest False) = IdArray [1, 2, 3, 4, 5, 9]"
    by (simp add: exampleRequest_def)
  have uniq: "distinct (map sid (students exampleWorld))" by (simp add: exampleWorld_def)
  have s: "?s \<in> set (students exampleWorld)" "sid ?s \<in> set [1, 2, 3, 4, 5, 9]"
    by (simp_all add: exampleWorld_def)
  have c: "findOneCourse (courses exampleWorld) (courseId ?s) = Some ?c"
    by (simp add: exampleWorld_def findOneCourse_def)
  have n: "parseInt (semId ?s) = Num 8" "No_of_Sem ?c \<le> 8" by (simp_all add: js_eval)
  from C3_final_semester_skipped [OF run ok ids uniq s c n]
  show ?thesis by simp
qed

section \<open>Rollback (C4, C5) and unparsable semesters (C6)\<close>

lemma rollbackDecision_nan:
  "parseInt (semId s) = NaN \<Longrightarrow>
     rollbackDecision r s = Skip \<lparr>sk_studentId = sid s, reason = ''Invalid semester value''\<rparr>"
  by (simp add: rollbackDecision_def)

lemma rollbackDecision_reset:
  "parseInt (semId s) = Num n \<Longrightarrow>
     rollbackDecision True s =
       Apply \<lparr>set_semId = None, set_academicYear = Some (nextYearLabel (academicYear s))\<rparr>
             \<lparr>rb_studentId = sid s, rb_sem = Some (semId s), rb_fromSem = None, rb_toSem = None,
              rb_academicYearFrom = academicYear s,
              rb_academicYearTo = nextYearLabel (academicYear s),
              rb_type = ''RESET_YEAR_ONLY''\<rparr>"
  by (simp add: rollbackDecision_def)

lemma rollbackDecision_first:
  "parseInt (semId s) = Num n \<Longrightarrow> n \<le> 1 \<Longrightarrow>
     rollbackDecision False s =
       Skip \<lparr>sk_studentId = sid s, reason = ''Already in first semester''\<rparr>"
  by (simp add: rollbackDecision_def)

lemma rollbackDecision_normal:
  "parseInt (semId s) = Num n \<Longrightarrow> 1 < n \<Longrightarrow>
     rollbackDecision False s =
       Apply \<lparr>set_semId = Some (toString (n - 1)),
              set_academicYear = (if even n then Some (prevYearLabel (academicYear s)) else None)\<rparr>
             \<lparr>rb_studentId = sid s, rb_sem = None, rb_fromSem = Some (semId s),
              rb_toSem = Some (toString (n - 1)),
              rb_academicYearFrom = academicYear s,
              rb_academicYearTo =
                (if even n then prevYearLabel (academicYear s) else academicYear s),
              rb_type = ''NORMAL_ROLLBACK''\<rparr>"
  by (simp add: rollbackDecision_def jsRem_2_iff)

lemma promoteDecision_nan:
  "parseInt (semId s) = NaN \<Longrightarrow>
     promoteDecision cs s =
       Skip \<lparr>sk_studentId = sid s,
             reason = (if findOneCourse cs (courseId s) = None then ''Course not found''
                       else ''Invalid semester'')\<rparr>"
  by (simp add: promoteDecision_def split: option.splits)

text \<open>
  C4: for every resolved student under a successful normal Rollback
  (\<open>resetAttendance\<close> not \<open>true\<close>) whose semester parses to \<open>n\<close>: if \<open>n \<le> 1\<close> the student is
  skipped with \<open>"Already in first semester"\<close> (the text of ALREADY_FIRST_SEMESTER) and the
  stored document is unchanged; otherwise the stored semester becomes \<open>n - 1\<close>, the
  academic year becomes the backward label exactly when \<open>n\<close> is even and is kept when \<open>n\<close>
  is odd, and the entry pushed on \<open>rolledBack\<close> has the type \<open>NORMAL_ROLLBACK\<close>.  The
  numbers are safe integers: \<open>n\<close> is one, and when the year changes the label is in range.
\<close>

theorem C4_normal_rollback:
  assumes run: "rollbackStudents req calls w = (resp, w')"
      and ok: "status resp = 200"
      and ids: "studentIds req = IdArray ids"
      and normal: "\<not> resetAttendance req"
      and uniq: "distinct (map sid (students w))"
      and s: "s \<in> set (students w)" "sid s \<in> set ids"
      and n: "parseInt (semId s) = Num n"
      and safe: "safeInteger n"
      and yr: "even n \<longrightarrow> safeStartYear (academicYear s)"
  shows "(n \<le> 1 \<longrightarrow>
            \<lparr>sk_studentId = sid s, reason = ''Already in first semester''\<rparr> \<in> set (skippedIn resp)
          \<and> sid s \<notin> rb_studentId ` set (rolledBackIn resp)
          \<and> findById (sid s) (students w') = Some s)
       \<and> (1 < n \<longrightarrow>
            findById (sid s) (students w') =
              Some (s\<lparr>semId := toString (n - 1),
                      academicYear :=
                        (if even n then prevYearLabel (academicYear s) else academicYear s)\<rparr>)
          \<and> parseInt (toString (n - 1)) = Num (n - 1)
          \<and> (\<forall>S. even n \<longrightarrow> parseInt (splitHead (academicYear s)) = Num S \<longrightarrow>
                 prevYearLabel (academicYear s) =
                   toString (S - 1) @ ''-'' @ sliceLast2 (toString S))
          \<and> \<lparr>rb_studentId = sid s, rb_sem = None, rb_fromSem = Some (semId s),
              rb_toSem = Some (toString (n - 1)),
              rb_academicYearFrom = academicYear s,
              rb_academicYearTo =
                (if even n then prevYearLabel (academicYear s) else academicYear s),
              rb_type = ''NORMAL_ROLLBACK''\<rparr> \<in> set (rolledBackIn resp)
          \<and> sid s \<notin> sk_studentId ` set (skippedIn resp))"
proof (intro conjI impI)
  note r = rollback_success [OF run ok ids]
  {
    assume "n \<le> 1"
    with n normal have d: "rollbackDecision (resetAttendance req) s =
        Skip \<lparr>sk_studentId = sid s, reason = ''Already in first semester''\<rparr>"
      by (simp add: rollbackDecision_first)
    note b = batch_skip [where dec = "rollbackDecision (resetAttendance req)"
        and idOf = rb_studentId, OF uniq s d rollbackDecision_ids]
    from b r
    show "\<lparr>sk_studentId = sid s, reason = ''Already in first semester''\<rparr> \<in> set (skippedIn resp)"
      and "sid s \<notin> rb_studentId ` set (rolledBackIn resp)"
      and "findById (sid s) (students w') = Some s"
      by simp_all
  }
  {
    assume "1 < n"
    with n normal have d: "rollbackDecision (resetAttendance req) s =
        Apply \<lparr>set_semId = Some (toString (n - 1)),
               set_academicYear = (if even n then Some (prevYearLabel (academicYear s)) else None)\<rparr>
              \<lparr>rb_studentId = sid s, rb_sem = None, rb_fromSem = Some (semId s),
               rb_toSem = Some (toString (n - 1)),
               rb_academicYearFrom = academicYear s,
               rb_academicYearTo =
                 (if even n then prevYearLabel (academicYear s) else academicYear s),
               rb_type = ''NORMAL_ROLLBACK''\<rparr>"
      by (simp add: rollbackDecision_normal)
    note b = batch_apply [where dec = "rollbackDecision (resetAttendance req)"
        and idOf = rb_studentId, OF uniq s d rollbackDecision_ids]
    have a: "applySet \<lparr>set_semId = Some (toString (n - 1)),
               set_academicYear = (if even n then Some (prevYearLabel (academicYear s)) else None)\<rparr> s
          = s\<lparr>semId := toString (n - 1),
               academicYear := (if even n then prevYearLabel (academicYear s) else academicYear s)\<rparr>"
      by (simp add: applySet_def)
    from b r a
    show "findById (sid s) (students w') =
              Some (s\<lparr>semId := toString (n - 1),
                      academicYear :=
                        (if even n then prevYearLabel (academicYear s) else academicYear s)\<rparr>)"
      and "\<lparr>rb_studentId = sid s, rb_sem = None, rb_fromSem = Some (semId s),
              rb_toSem = Some (toString (n - 1)),
              rb_academicYearFrom = academicYear s,
              rb_academicYearTo =
                (if even n then prevYearLabel (academicYear s) else academicYear s),
              rb_type = ''NORMAL_ROLLBACK''\<rparr> \<in> set (rolledBackIn resp)"
      and "sid s \<notin> sk_studentId ` set (skippedIn resp)"
      by simp_all
    show "parseInt (toString (n - 1)) = Num (n - 1)" by (rule parseInt_toString)
    show "\<forall>S. even n \<longrightarrow> parseInt (splitHead (academicYear s)) = Num S \<longrightarrow>
                 prevYearLabel (academicYear s) =
                   toString (S - 1) @ ''-'' @ sliceLast2 (toString S)"
      by (simp add: prevYearLabel_start)
  }
qed

text \<open>Student 1 of the example (semester 4, even) goes back to semester 3 and the year
  before; student 4 (semester \<open>"0"\<close>) is skipped.\<close>

theorem C4_normal_rollback_witness:
  "findById 1 (students (snd (rollbackStudents (exampleRequest False) None exampleWorld)))
     = Some \<lparr>sid = 1, courseId = ''MCA'', semId = ''3'', academicYear = ''2023-24''\<rparr>
   \<and> \<lparr>sk_studentId = 4, reason = ''Already in first semester''\<rparr>
     \<in> set (skippedIn (fst (rollbackStudents (exampleRequest False) None exampleWorld)))
   \<and> findById 4 (students (snd (rollbackStudents (exampleRequest False) None exampleWorld)))
     = Some \<lparr>sid = 4, courseId = ''MCA'', semId = ''0'', academicYear = ''2024-25''\<rparr>"
proof -
  let ?s1 = "\<lparr>sid = 1, courseId = ''MCA'', semId = ''4'', academicYear = ''2024-25''\<rparr>"
  let ?s4 = "\<lparr>sid = 4, courseId = ''MCA'', semId = ''0'', academicYear = ''2024-25''\<rparr>"
  let ?out = "rollbackStudents (exampleRequest False) None exampleWorld"
  have run: "?out = (fst ?out, snd ?out)" by simp
  have ok: "status (fst ?out) = 200" by (simp add: rollback_example)
  have ids: "studentIds (exampleRequest False) = IdArray [1, 2, 3, 4, 5, 9]"
    by (simp add: exampleRequest_def)
  have normal: "\<not> resetAttendance (exampleRequest False)" by (simp add: exampleRequest_def)
  have uniq: "distinct (map sid (students exampleWorld))" by (simp add: exampleWorld_def)
  have s1: "?s1 \<in> set (students exampleWorld)" "sid ?s1 \<in> set [1, 2, 3, 4, 5, 9]"
    by (simp_all add: exampleWorld_def)
  have s4: "?s4 \<in> set (students exampleWorld)" "sid ?s4 \<in> set [1, 2, 3, 4, 5, 9]"
    by (simp_all add: exampleWorld_def)
  have n1: "parseInt (semId ?s1) = Num 4" by (simp add: js_eval)
  have n4: "parseInt (semId ?s4) = Num 0" by (simp add: js_eval)
  have safe: "safeInteger 4" "safeInteger 0" by (simp_all add: safeInteger_def)
  have yr: "even (4::int) \<longrightarrow> safeStartYear (academicYear ?s1)"
           "even (0::int) \<longrightarrow> safeStartYear (academicYear ?s4)"
    by (simp_all add: safeStartYear_def safeInteger_def js_eval)
  have e: "toString 3 = ''3''" "prevYearLabel ''2024-25'' = ''2023-24''"
    by (simp_all add: js_eval)
  from C4_normal_rollback [OF run ok ids normal uniq s1 n1 safe(1) yr(1)]
       C4_normal_rollback [OF run ok ids normal uniq s4 n4 safe(2) yr(2)] e
  show ?thesis by simp
qed

text \<open>
  C5, the claim as written, speaks of every input student state.  The loop tests the
  semester before it looks at \<open>resetAttendance\<close>: student 3 of the example, whose semester
  is \<open>"abc"\<close>, is skipped by the year-only reset and keeps the year \<open>"2024-25"\<close>.
\<close>

theorem C5_reset_skips_unparsable_counterexample:
  "parseInt ''abc'' = NaN
   \<and> status (fst (rollbackStudents (exampleRequest True) None exampleWorld)) = 200
   \<and> findById 3 (students exampleWorld)
       = Some \<lparr>sid = 3, courseId = ''MCA'', semId = ''abc'', academicYear = ''2024-25''\<rparr>
   \<and> findById 3 (students (snd (rollbackStudents (exampleRequest True) None exampleWorld)))
       = Some \<lparr>sid = 3, courseId = ''MCA'', semId = ''abc'', academicYear = ''2024-25''\<rparr>
   \<and> nextYearLabel ''2024-25'' \<noteq> ''2024-25''
   \<and> \<lparr>sk_studentId = 3, reason = ''Invalid semester value''\<rparr>
       \<in> set (skippedIn (fst (rollbackStudents (exampleRequest True) None exampleWorld)))
   \<and> 3 \<notin> rb_studentId ` set (rolledBackIn (fst (rollbackStudents (exampleRequest True) None exampleWorld)))"
  by (simp add: reset_example) (simp add: handler_eval)

text \<open>
  C5, amended: for every resolved student whose semester parses, a successful Rollback
  with \<open>resetAttendance = true\<close> leaves the semester as stored and replaces the academic
  year by the forward label (start year plus one, suffix recomputed, for a label with start
  year \<open>S\<close>), whatever the parity of the semester; the entry pushed on \<open>rolledBack\<close> has the
  type \<open>RESET_YEAR_ONLY\<close>.  The label is in range.  A student whose semester does not parse
  is skipped with \<open>"Invalid semester value"\<close> and keeps its academic year.
\<close>

theorem C5_reset_year_only:
  assumes run: "rollbackStudents req calls w = (resp, w')"
      and ok: "status resp = 200"
      and ids: "studentIds req = IdArray ids"
      and reset: "resetAttendance req"
      and uniq: "distinct (map sid (students w))"
      and s: "s \<in> set (students w)" "sid s \<in> set ids"
  shows "(parseInt (semId s) \<noteq> NaN \<longrightarrow> safeStartYear (academicYear s) \<longrightarrow>
            findById (sid s) (students w') =
              Some (s\<lparr>academicYear := nextYearLabel (academicYear s)\<rparr>)
          \<and> (\<forall>S. parseInt (splitHead (academicYear s)) = Num S \<longrightarrow>
                 nextYearLabel (academicYear s) =
                   toString (S + 1) @ ''-'' @ sliceLast2 (toString (S + 2)))
          \<and> \<lparr>rb_studentId = sid s, rb_sem = Some (semId s), rb_fromSem = None, rb_toSem = None,
              rb_academicYearFrom = academicYear s,
              rb_academicYearTo = nextYearLabel (academicYear s),
              rb_type = ''RESET_YEAR_ONLY''\<rparr> \<in> set (rolledBackIn resp)
          \<and> sid s \<notin> sk_studentId ` set (skippedIn resp))
       \<and> (parseInt (semId s) = NaN \<longrightarrow>
            \<lparr>sk_studentId = sid s, reason = ''Invalid semester value''\<rparr> \<in> set (skippedIn resp)
          \<and> sid s \<notin> rb_studentId ` set (rolledBackIn resp)
          \<and> findById (sid s) (students w') = Some s)"
proof (intro conjI impI)
  note r = rollback_success [OF run ok ids]
  {
    assume "parseInt (semId s) \<noteq> NaN"
    then obtain n where n: "parseInt (semId s) = Num n" by (cases "parseInt (semId s)") auto
    from reset have "rollbackDecision (resetAttendance req) s = rollbackDecision True s" by simp
    note d = this [unfolded rollbackDecision_reset [OF n]]
    note b = batch_apply [where dec = "rollbackDecision (resetAttendance req)"
        and idOf = rb_studentId, OF uniq s d rollbackDecision_ids]
    have a: "applySet \<lparr>set_semId = None,
                       set_academicYear = Some (nextYearLabel (academicYear s))\<rparr> s
            = s\<lparr>academicYear := nextYearLabel (academicYear s)\<rparr>"
      by (simp add: applySet_def)
    from b r a
    show "findById (sid s) (students w') =
              Some (s\<lparr>academicYear := nextYearLabel (academicYear s)\<rparr>)"
      and "\<lparr>rb_studentId = sid s, rb_sem = Some (semId s), rb_fromSem = None, rb_toSem = None,
              rb_academicYearFrom = academicYear s,
              rb_academicYearTo = nextYearLabel (academicYear s),
              rb_type = ''RESET_YEAR_ONLY''\<rparr> \<in> set (rolledBackIn resp)"
      and "sid s \<notin> sk_studentId ` set (skippedIn resp)"
      by simp_all
    show "\<forall>S. parseInt (splitHead (academicYear s)) = Num S \<longrightarrow>
                 nextYearLabel (academicYear s) =
                   toString (S + 1) @ ''-'' @ sliceLast2 (toString (S + 2))"
      by (simp add: nextYearLabel_start)
  }
  {
    assume nan: "parseInt (semId s) = NaN"
    note d = rollbackDecision_nan [OF nan, of "resetAttendance req"]
    note b = batch_skip [where dec = "rollbackDecision (resetAttendance req)"
        and idOf = rb_studentId, OF uniq s d rollbackDecision_ids]
    from b r
    show "\<lparr>sk_studentId = sid s, reason = ''Invalid semester value''\<rparr> \<in> set (skippedIn resp)"
      and "sid s \<notin> rb_studentId ` set (rolledBackIn resp)"
      and "findById (sid s) (students w') = Some s"
      by simp_all
  }
qed

text \<open>Student 2 of the example (semester 8, the last one) keeps its semester and moves from
  \<open>"2024-25"\<close> to \<open>"2025-26"\<close>; student 3 (semester \<open>"abc"\<close>) is skipped and keeps its year.\<close>

theorem C5_reset_year_only_witness:
  "findById 2 (students (snd (rollbackStudents (exampleRequest True) None exampleWorld)))
     = Some \<lparr>sid = 2, courseId = ''MCA'', semId = ''8'', academicYear = ''2025-26''\<rparr>
   \<and> findById 3 (students (snd (rollbackStudents (exampleRequest True) None exampleWorld)))
     = Some \<lparr>sid = 3, courseId = ''MCA'', semId = ''abc'', academicYear = ''2024-25''\<rparr>"
proof -
  let ?s2 = "\<lparr>sid = 2, courseId = ''MCA'', semId = ''8'', academicYear = ''2024-25''\<rparr>"
  let ?s3 = "\<lparr>sid = 3, courseId = ''MCA'', semId = ''abc'', academicYear = ''2024-25''\<rparr>"
  let ?out = "rollbackStudents (exampleRequest True) None exampleWorld"
  have run: "?out = (fst ?out, snd ?out)" by simp
  have ok: "status (fst ?out) = 200" by (simp add: reset_example)
  have ids: "studentIds (exampleRequest True) = IdArray [1, 2, 3, 4, 5, 9]"
    by (simp add: exampleRequest_def)
  have reset: "resetAttendance (exampleRequest True)" by (simp add: exampleRequest_def)
  have uniq: "distinct (map sid (students exampleWorld))" by (simp add: exampleWorld_def)
  have s2: "?s2 \<in> set (students exampleWorld)" "sid ?s2 \<in> set [1, 2, 3, 4, 5, 9]"
    by (simp_all add: exampleWorld_def)
  have s3: "?s3 \<in> set (students exampleWorld)" "sid ?s3 \<in> set [1, 2, 3, 4, 5, 9]"
    by (simp_all add: exampleWorld_def)
  have n2: "parseInt (semId ?s2) \<noteq> NaN" by (simp add: js_eval)
  have y2: "safeStartYear (academicYear ?s2)"
    by (simp add: safeStartYear_def safeInteger_def js_eval)
  have n3: "parseInt (semId ?s3) = NaN" by (simp add: js_eval)
  have e: "nextYearLabel ''2024-25'' = ''2025-26''" by (simp add: js_eval)
  note a = C5_reset_year_only [OF run ok ids reset uniq s2, THEN conjunct1, rule_format,
      OF n2 y2]
  note b = C5_reset_year_only [OF run ok ids reset uniq s3, THEN conjunct2, rule_format,
      OF n3]
  from a b e show ?thesis by simp
qed

text \<open>
  C6, the claim as written, counts \<open>"0"\<close> and \<open>"-3"\<close> among the semesters that fail to
  parse.  The handlers only test \<open>isNaN\<close>: \<open>"0"\<close> parses to 0 and \<open>"-3"\<close> to \<open>-3\<close>, and Advance
  promotes student 4 of the example from \<open>"0"\<close> to \<open>"1"\<close>.  Student 5, whose semester
  \<open>"x7"\<close> does not parse, is skipped by Advance for its missing course, not for its
  semester.
\<close>

theorem C6_zero_semester_promoted_counterexample:
  "parseInt ''0'' = Num 0 \<and> parseInt ''-3'' = Num (- 3)
   \<and> status (fst (promoteStudentsToNextSemester (exampleRequest False) None exampleWorld)) = 200
   \<and> findById 4 (students exampleWorld)
       = Some \<lparr>sid = 4, courseId = ''MCA'', semId = ''0'', academicYear = ''2024-25''\<rparr>
   \<and> findById 4 (students (snd (promoteStudentsToNextSemester (exampleRequest False) None exampleWorld)))
       = Some \<lparr>sid = 4, courseId = ''MCA'', semId = ''1'', academicYear = ''2025-26''\<rparr>
   \<and> 4 \<notin> sk_studentId `
         set (skippedIn (fst (promoteStudentsToNextSemester (exampleRequest False) None exampleWorld)))
   \<and> parseInt ''x7'' = NaN
   \<and> \<lparr>sk_studentId = 5, reason = ''Course not found''\<rparr>
         \<in> set (skippedIn (fst (promoteStudentsToNextSemester (exampleRequest False) None exampleWorld)))
   \<and> \<lparr>sk_studentId = 5, reason = ''Invalid semester''\<rparr>
         \<notin> set (skippedIn (fst (promoteStudentsToNextSemester (exampleRequest False) None exampleWorld)))"
  by (simp add: promote_example) (simp add: handler_eval)

text \<open>
  C6, amended: a resolved student whose stored semester gives \<open>NaN\<close> under \<open>parseInt\<close> (no
  decimal digit after the leading white space and one optional sign) is skipped by a
  successful batch of either operation and the stored document is unchanged.  Rollback
  gives the reason \<open>"Invalid semester value"\<close>, with or without \<open>resetAttendance\<close>; Advance
  gives \<open>"Invalid semester"\<close> when the student's course exists and \<open>"Course not found"\<close>
  otherwise, since it looks the course up first.
\<close>

theorem C6_unparsable_semester_skipped:
  assumes ids: "studentIds req = IdArray ids"
      and uniq: "distinct (map sid (students w))"
      and s: "s \<in> set (students w)" "sid s \<in> set ids"
      and nan: "parseInt (semId s) = NaN"
  shows "(promoteStudentsToNextSemester req calls w = (resp, w') \<longrightarrow> status resp = 200 \<longrightarrow>
            \<lparr>sk_studentId = sid s,
              reason = (if findOneCourse (courses w) (courseId s) = None then ''Course not found''
                        else ''Invalid semester'')\<rparr> \<in> set (skippedIn resp)
          \<and> sid s \<notin> pr_studentId ` set (promotedIn resp)
          \<and> findById (sid s) (students w') = Some s)
       \<and> (rollbackStudents req calls w = (resp, w') \<longrightarrow> status resp = 200 \<longrightarrow>
            \<lparr>sk_studentId = sid s, reason = ''Invalid semester value''\<rparr> \<in> set (skippedIn resp)
          \<and> sid s \<notin> rb_studentId ` set (rolledBackIn resp)
          \<and> findById (sid s) (students w') = Some s)"
proof (intro conjI impI)
  {
    assume run: "promoteStudentsToNextSemester req calls w = (resp, w')" and ok: "status resp = 200"
    note d = promoteDecision_nan [OF nan, of "courses w"]
    note b = batch_skip [where dec = "promoteDecision (courses w)" and idOf = pr_studentId,
        OF uniq s d promoteDecision_ids]
    note r = promote_success [OF run ok ids]
    from b r
    show "\<lparr>sk_studentId = sid s,
              reason = (if findOneCourse (courses w) (courseId s) = None then ''Course not found''
                        else ''Invalid semester'')\<rparr> \<in> set (skippedIn resp)"
      and "sid s \<notin> pr_studentId ` set (promotedIn resp)"
      and "findById (sid s) (students w') = Some s"
      by simp_all
  }
  {
    assume run: "rollbackStudents req calls w = (resp, w')" and ok: "status resp = 200"
    note d = rollbackDecision_nan [OF nan, of "resetAttendance req"]
    note b = batch_skip [where dec = "rollbackDecision (resetAttendance req)"
        and idOf = rb_studentId, OF uniq s d rollbackDecision_ids]
    note r = rollback_success [OF run ok ids]
    from b r
    show "\<lparr>sk_studentId = sid s, reason = ''Invalid semester value''\<rparr> \<in> set (skippedIn resp)"
      and "sid s \<notin> rb_studentId ` set (rolledBackIn resp)"
      and "findById (sid s) (students w') = Some s"
      by simp_all
  }
qed

text \<open>Student 3 of the example (semester \<open>"abc"\<close>) under Advance and under normal
  Rollback.\<close>

theorem C6_unparsable_semester_skipped_witness:
  "\<lparr>sk_studentId = 3, reason = ''Invalid semester''\<rparr>
     \<in> set (skippedIn (fst (promoteStudentsToNextSemester (exampleRequest False) None exampleWorld)))
   \<and> findById 3 (students (snd (promoteStudentsToNextSemester (exampleRequest False) None exampleWorld)))
     = Some \<lparr>sid = 3, courseId = ''MCA'', semId = ''abc'', academicYear = ''2024-25''\<rparr>
   \<and> \<lparr>sk_studentId = 3, reason = ''Invalid semester value''\<rparr>
     \<in> set (skippedIn (fst (rollbackStudents (exampleRequest False) None exampleWorld)))
   \<and> findById 3 (students (snd (rollbackStudents (exampleRequest False) None exampleWorld)))
     = Some \<lparr>sid = 3, courseId = ''MCA'', semId = ''abc'', academicYear = ''2024-25''\<rparr>"
proof -
  let ?s = "\<lparr>sid = 3, courseId = ''MCA'', semId = ''abc'', academicYear = ''2024-25''\<rparr>"
  let ?p = "promoteStudentsToNextSemester (exampleRequest False) None exampleWorld"
  let ?r = "rollbackStudents (exampleRequest False) None exampleWorld"
  have runp: "?p = (fst ?p, snd ?p)" and runr: "?r = (fst ?r, snd ?r)" by simp_all
  have okp: "status (fst ?p) = 200" by (simp add: promote_example)
  have okr: "status (fst ?r) = 200" by (simp add: rollback_example)
  have ids: "studentIds (exampleRequest False) = IdArray [1, 2, 3, 4, 5, 9]"
    by (simp add: exampleRequest_def)
  have uniq: "distinct (map sid (students exampleWorld))" by (simp add: exampleWorld_def)
  have s: "?s \<in> set (students exampleWorld)" "sid ?s \<in> set [1, 2, 3, 4, 5, 9]"
    by (simp_all add: exampleWorld_def)
  have nan: "parseInt (semId ?s) = NaN" by (simp add: js_eval)
  have c: "findOneCourse (courses exampleWorld) ''MCA''
             = Some \<lparr>Course_Id = ''MCA'', No_of_Sem = 8\<rparr>"
    by (simp add: exampleWorld_def findOneCourse_def)
  note a = C6_unparsable_semester_skipped [OF ids uniq s nan, THEN conjunct1, rule_format,
      OF runp okp]
  note b = C6_unparsable_semester_skipped [OF ids uniq s nan, THEN conjunct2, rule_format,
      OF runr okr]
  from a b show ?thesis by (simp add: c)
qed

section \<open>Partition of the resolved identifiers (C8)\<close>

text \<open>
  C8, the claim as written, puts every requested identifier in one of the two arrays.  The
  handlers only walk the documents that \<open>Student.find\<close> returned: identifier 9 of the
  example request belongs to no student and appears in neither array of the 200 answer.
\<close>

theorem C8_unresolved_id_in_neither_counterexample:
  "studentIds (exampleRequest False) = IdArray [1, 2, 3, 4, 5, 9]
   \<and> status (fst (promoteStudentsToNextSemester (exampleRequest False) None exampleWorld)) = 200
   \<and> 9 \<notin> pr_studentId `
         set (promotedIn (fst (promoteStudentsToNextSemester (exampleRequest False) None exampleWorld)))
   \<and> 9 \<notin> sk_studentId `
         set (skippedIn (fst (promoteStudentsToNextSemester (exampleRequest False) None exampleWorld)))"
  by (simp add: promote_example) (simp add: handler_eval)

text \<open>
  C8, amended: in every 200 answer of Advance or Rollback over a store with unique
  identifiers, a requested identifier that belongs to a stored student occurs exactly once
  in the result array and the skip array taken together, and a requested identifier that
  belongs to no student occurs in neither.
\<close>

theorem C8_resolved_ids_partitioned:
  assumes ids: "studentIds req = IdArray ids"
      and uniq: "distinct (map sid (students w))"
      and i: "i \<in> set ids"
  shows "(promoteStudentsToNextSemester req calls w = (resp, w') \<longrightarrow> status resp = 200 \<longrightarrow>
            count_list (map pr_studentId (promotedIn resp)) i
              + count_list (map sk_studentId (skippedIn resp)) i
            = (if i \<in> sid ` set (students w) then 1 else 0))
       \<and> (rollbackStudents req calls w = (resp, w') \<longrightarrow> status resp = 200 \<longrightarrow>
            count_list (map rb_studentId (rolledBackIn resp)) i
              + count_list (map sk_studentId (skippedIn resp)) i
            = (if i \<in> sid ` set (students w) then 1 else 0))"
proof -
  let ?xs = "findStudents ids (students w)"
  have "distinct (map sid ?xs)" using uniq by (rule distinct_findStudents)
  then have "count_list (map sid ?xs) i = (if i \<in> set (map sid ?xs) then 1 else 0)"
    by (rule count_list_distinct)
  moreover have "i \<in> set (map sid ?xs) \<longleftrightarrow> i \<in> sid ` set (students w)"
    using i by (auto simp: set_findStudents)
  ultimately have k: "count_list (map sid ?xs) i = (if i \<in> sid ` set (students w) then 1 else 0)"
    by simp
  have p: "count_list (map pr_studentId (appliedOf (promoteDecision (courses w)) ?xs)) i
             + count_list (map sk_studentId (skippedOf (promoteDecision (courses w)) ?xs)) i
           = count_list (map sid ?xs) i"
    using promoteDecision_ids(2) promoteDecision_ids(1) by (rule count_partition)
  have r: "count_list (map rb_studentId (appliedOf (rollbackDecision (resetAttendance req)) ?xs)) i
             + count_list (map sk_studentId (skippedOf (rollbackDecision (resetAttendance req)) ?xs)) i
           = count_list (map sid ?xs) i"
    using rollbackDecision_ids(2) rollbackDecision_ids(1) by (rule count_partition)
  show ?thesis
  proof (intro conjI impI)
    assume "promoteStudentsToNextSemester req calls w = (resp, w')" and "status resp = 200"
    from promote_success [OF this ids] p k
    show "count_list (map pr_studentId (promotedIn resp)) i
              + count_list (map sk_studentId (skippedIn resp)) i
            = (if i \<in> sid ` set (students w) then 1 else 0)"
      by simp
  next
    assume "rollbackStudents req calls w = (resp, w')" and "status resp = 200"
    from rollback_success [OF this ids] r k
    show "count_list (map rb_studentId (rolledBackIn resp)) i
              + count_list (map sk_studentId (skippedIn resp)) i
            = (if i \<in> sid ` set (students w) then 1 else 0)"
      by simp
  qed
qed

text \<open>Identifier 2 of the example occurs once, in \<open>skipped\<close> under Advance and in
  \<open>rolledBack\<close> under Rollback.\<close>

theorem C8_resolved_ids_partitioned_witness:
  "count_list (map pr_studentId
       (promotedIn (fst (promoteStudentsToNextSemester (exampleRequest False) None exampleWorld)))) 2
     + count_list (map sk_studentId
       (skippedIn (fst (promoteStudentsToNextSemester (exampleRequest False) None exampleWorld)))) 2
     = 1
   \<and> count_list (map rb_studentId
       (rolledBackIn (fst (rollbackStudents (exampleRequest False) None exampleWorld)))) 2
     + count_list (map sk_studentId
       (skippedIn (fst (rollbackStudents (exampleRequest False) None exampleWorld)))) 2
     = 1"
proof -
  let ?p = "promoteStudentsToNextSemester (exampleRequest False) None exampleWorld"
  let ?r = "rollbackStudents (exampleRequest False) None exampleWorld"
  have runp: "?p = (fst ?p, snd ?p)" and runr: "?r = (fst ?r, snd ?r)" by simp_all
  have okp: "status (fst ?p) = 200" by (simp add: promote_example)
  have okr: "status (fst ?r) = 200" by (simp add: rollback_example)
  have ids: "studentIds (exampleRequest False) = IdArray [1, 2, 3, 4, 5, 9]"
    by (simp add: exampleRequest_def)
  have uniq: "distinct (map sid (students exampleWorld))" by (simp add: exampleWorld_def)
  have i: "(2::nat) \<in> set [1, 2, 3, 4, 5, 9]" by simp
  have m: "(2::nat) \<in> sid ` set (students exampleWorld)" by (simp add: exampleWorld_def)
  note a = C8_resolved_ids_partitioned [OF ids uniq i, THEN conjunct1, rule_format,
      OF runp okp]
  note b = C8_resolved_ids_partitioned [OF ids uniq i, THEN conjunct2, rule_format,
      OF runr okr]
  from a b m show ?thesis by simp
qed

section \<open>Frame of the rollback (C10)\<close>

lemma skippedOf_origin:
  "it \<in> set (skippedOf dec xs) \<Longrightarrow> \<exists>s \<in> set xs. dec s = Skip it"
  by (induction xs) (auto split: decision.splits)

lemma rollbackDecision_reasons:
  "rollbackDecision r s = Skip it \<Longrightarrow>
     reason it = ''Invalid semester value'' \<or> reason it = ''Already in first semester''"
  by (auto simp: rollbackDecision_def split: jsnum.splits if_splits)

lemma rollback_skipped_shape:
  assumes "rollbackStudents req calls w = (resp, w')"
  shows "skippedIn resp = []
       \<or> (\<exists>xs. skippedIn resp = skippedOf (rollbackDecision (resetAttendance req)) xs)"
proof (cases "status resp = 200")
  case True
  with assms obtain ids where "studentIds req = IdArray ids"
    by (auto simp: rollbackStudents_def split: idsField.splits if_splits sum.splits)
  from rollback_success [OF assms True this] show ?thesis by blast
next
  case False
  with assms have "skippedIn resp = []"
    by (auto simp: rollbackStudents_def skippedIn_def split: idsField.splits if_splits sum.splits)
  then show ?thesis ..
qed

text \<open>
  C10: Rollback reads and writes the Students collection only.  Whatever the answer, the
  Course catalogue and the Attendance collection are returned as they were; replacing both
  by any other contents changes neither the response nor the students written, so neither
  is consulted (there is no semester ceiling in the rollback); and no skip entry carries
  the reason \<open>"Course not found"\<close> or \<open>"Final semester"\<close>.  This holds with and without
  \<open>resetAttendance\<close>.
\<close>

theorem C10_rollback_frame:
  assumes run: "rollbackStudents req calls w = (resp, w')"
  shows "courses w' = courses w \<and> attendances w' = attendances w
       \<and> rollbackStudents req calls (w\<lparr>courses := cs, attendances := att\<rparr>)
           = (resp, w'\<lparr>courses := cs, attendances := att\<rparr>)
       \<and> (\<forall>it \<in> set (skippedIn resp).
              reason it \<noteq> ''Course not found'' \<and> reason it \<noteq> ''Final semester'')"
proof (intro conjI)
  from run show "courses w' = courses w"
    by (auto simp: rollbackStudents_def split: idsField.splits if_splits sum.splits)
  from run show "attendances w' = attendances w"
    by (auto simp: rollbackStudents_def split: idsField.splits if_splits sum.splits)
  from run show "rollbackStudents req calls (w\<lparr>courses := cs, attendances := att\<rparr>)
           = (resp, w'\<lparr>courses := cs, attendances := att\<rparr>)"
    by (auto simp: rollbackStudents_def split: idsField.splits if_splits sum.splits)
  show "\<forall>it \<in> set (skippedIn resp).
              reason it \<noteq> ''Course not found'' \<and> reason it \<noteq> ''Final semester''"
  proof
    fix it assume m: "it \<in> set (skippedIn resp)"
    from rollback_skipped_shape [OF run] m obtain xs
      where "it \<in> set (skippedOf (rollbackDecision (resetAttendance req)) xs)" by auto
    then obtain s where "rollbackDecision (resetAttendance req) s = Skip it"
      by (auto dest: skippedOf_origin)
    then have "reason it = ''Invalid semester value'' \<or> reason it = ''Already in first semester''"
      by (rule rollbackDecision_reasons)
    then show "reason it \<noteq> ''Course not found'' \<and> reason it \<noteq> ''Final semester''" by auto
  qed
qed

text \<open>The year-only reset of the example, run once on the example store and once on a store
  without any course and with an attendance document: same answer, same students, and the
  attendance document is still there.\<close>

theorem C10_rollback_frame_witness:
  "rollbackStudents (exampleRequest True) None
       (exampleWorld\<lparr>courses := [], attendances := [exampleAttendance]\<rparr>)
     = (fst (rollbackStudents (exampleRequest True) None exampleWorld),
        (snd (rollbackStudents (exampleRequest True) None exampleWorld))
          \<lparr>courses := [], attendances := [exampleAttendance]\<rparr>)
   \<and> attendances (snd (rollbackStudents (exampleRequest True) None
       (exampleWorld\<lparr>courses := [], attendances := [exampleAttendance]\<rparr>))) = [exampleAttendance]"
proof -
  let ?out = "rollbackStudents (exampleRequest True) None exampleWorld"
  have run: "?out = (fst ?out, snd ?out)" by simp
  from C10_rollback_frame [OF run, where cs = "[]" and att = "[exampleAttendance]"]
  show ?thesis by simp
qed

section \<open>Status codes (C9)\<close>

text \<open>The parts of the status-code contract that both handlers share: a missing, non-array
  or empty \<open>studentIds\<close> is answered with 400 before the store is touched; an answer of
  500 only arises from a rejected store call and leaves the store as it was; a store that
  never rejects is never answered with 500.\<close>

lemma malformed_request_400:
  assumes "studentIds req = Absent \<or> studentIds req = NotAnArray \<or> studentIds req = IdArray []"
  shows "promoteStudentsToNextSemester req calls w
           = (\<lparr>status = 400, body = Message ''studentIds must be a non-empty array''\<rparr>, w)"
    and "rollbackStudents req calls w
           = (\<lparr>status = 400, body = Message ''studentIds must be a non-empty array''\<rparr>, w)"
  using assms by (auto simp: promoteStudentsToNextSemester_def rollbackStudents_def)

lemma storageCall_reliable: "storageCall None = Inr None"
  by (simp add: storageCall_def)

lemma storageCall_keeps_reliable: "storageCall k = Inr k' \<Longrightarrow> (k' = None) = (k = None)"
  by (auto simp: storageCall_def split: option.splits nat.splits)

lemma promoteOne_reliable:
  "p_calls st = None \<Longrightarrow> \<exists>st'. promoteOne cs s st = Inr st' \<and> p_calls st' = None"
  by (auto simp: promoteOne_def storageCall_reliable Let_def split: option.splits jsnum.splits)

lemma promoteLoop_reliable:
  "p_calls st = None \<Longrightarrow> \<exists>st'. promoteLoop cs xs st = Inr st' \<and> p_calls st' = None"
proof (induction xs arbitrary: st)
  case Nil
  then show ?case by simp
next
  case (Cons x xs)
  from promoteOne_reliable [OF Cons.prems] obtain st1
    where a: "promoteOne cs x st = Inr st1" and b: "p_calls st1 = None" by blast
  from Cons.IH [OF b] a show ?case by simp
qed

lemma rollbackOne_reliable:
  "r_calls st = None \<Longrightarrow> \<exists>st'. rollbackOne r s st = Inr st' \<and> r_calls st' = None"
  by (auto simp: rollbackOne_def storageCall_reliable Let_def split: option.splits jsnum.splits)

lemma rollbackLoop_reliable:
  "r_calls st = None \<Longrightarrow> \<exists>st'. rollbackLoop r xs st = Inr st' \<and> r_calls st' = None"
proof (induction xs arbitrary: st)
  case Nil
  then show ?case by simp
next
  case (Cons x xs)
  from rollbackOne_reliable [OF Cons.prems] obtain st1
    where a: "rollbackOne r x st = Inr st1" and b: "r_calls st1 = None" by blast
  from Cons.IH [OF b] a show ?case by simp
qed

lemma promote_status:
  assumes "studentIds req = IdArray ids" and "ids \<noteq> []"
  shows "status (fst (promoteStudentsToNextSemester req None w))
           = (if findStudents ids (students w) = [] then 404 else 200)"
proof -
  obtain st where "promoteLoop (courses w) (findStudents ids (students w))
       \<lparr>p_docs = students w, p_calls = None, promoted = [], p_skipped = []\<rparr> = Inr st"
    and "p_calls st = None"
    using promoteLoop_reliable [of "\<lparr>p_docs = students w, p_calls = None, promoted = [],
      p_skipped = []\<rparr>" "courses w" "findStudents ids (students w)"] by auto
  with assms show ?thesis
    by (simp add: promoteStudentsToNextSemester_def storageCall_reliable Let_def)
qed

lemma rollback_status:
  assumes "studentIds req = IdArray ids" and "ids \<noteq> []"
  shows "status (fst (rollbackStudents req None w)) = 200"
proof -
  obtain st where "rollbackLoop (resetAttendance req) (findStudents ids (students w))
       \<lparr>r_docs = students w, r_calls = None, rolledBack = [], r_skipped = []\<rparr> = Inr st"
    and "r_calls st = None"
    using rollbackLoop_reliable [of "\<lparr>r_docs = students w, r_calls = None, rolledBack = [],
      r_skipped = []\<rparr>" "resetAttendance req" "findStudents ids (students w)"] by auto
  with assms show ?thesis
    by (simp add: rollbackStudents_def storageCall_reliable Let_def)
qed

lemma failure_500:
  shows "status (fst (promoteStudentsToNextSemester req calls w)) = 500 \<Longrightarrow>
           calls \<noteq> None \<and> snd (promoteStudentsToNextSemester req calls w) = w"
    and "status (fst (rollbackStudents req calls w)) = 500 \<Longrightarrow>
           calls \<noteq> None \<and> snd (rollbackStudents req calls w) = w"
proof -
  assume a: "status (fst (promoteStudentsToNextSemester req calls w)) = 500"
  have "snd (promoteStudentsToNextSemester req calls w) = w" using a
    by (auto simp: promoteStudentsToNextSemester_def Let_def
             split: idsField.splits if_splits sum.splits)
  moreover have "calls \<noteq> None"
  proof
    assume "calls = None"
    with a promote_status [of req _ w] show False
      by (cases "studentIds req")
         (auto simp: promoteStudentsToNextSemester_def split: if_splits)
  qed
  ultimately show "calls \<noteq> None \<and> snd (promoteStudentsToNextSemester req calls w) = w" by simp
next
  assume a: "status (fst (rollbackStudents req calls w)) = 500"
  have "snd (rollbackStudents req calls w) = w" using a
    by (auto simp: rollbackStudents_def Let_def split: idsField.splits if_splits sum.splits)
  moreover have "calls \<noteq> None"
  proof
    assume "calls = None"
    with a rollback_status [of req _ w] show False
      by (cases "studentIds req")
         (auto simp: rollbackStudents_def split: if_splits)
  qed
  ultimately show "calls \<noteq> None \<and> snd (rollbackStudents req calls w) = w" by simp
qed

text \<open>
  C9: both handlers are claimed to answer 404 when none of the supplied identifiers
  resolves.  \<open>promoteStudentsToNextSemester\<close> does; \<open>rollbackStudents\<close> has no such test, and
  a request for the single unknown identifier 9 is answered with 200 and two empty arrays.
\<close>

theorem C9_rollback_answers_200_when_nothing_resolves:
  "findStudents [9] (students exampleWorld) = []
   \<and> promoteStudentsToNextSemester \<lparr>studentIds = IdArray [9], resetAttendance = False\<rparr> None exampleWorld
       = (\<lparr>status = 404, body = Message ''No valid students found''\<rparr>, exampleWorld)
   \<and> rollbackStudents \<lparr>studentIds = IdArray [9], resetAttendance = False\<rparr> None exampleWorld
       = (\<lparr>status = 200, body = RollbackSummary 1 [] []\<rparr>, exampleWorld)"
  by (simp add: handler_eval)

section \<open>Advance followed by Rollback (C2)\<close>

lemma findById_Some: "findById i ds = Some d \<Longrightarrow> d \<in> set ds \<and> sid d = i"
  by (auto simp: findById_def find_Some_iff in_set_conv_nth)

text \<open>What the two batches, run one after the other over the same request, leave in the
  document of a student that Advance promoted from a semester \<open>n \<ge> 1\<close>, computed in the
  embedding (exact for numbers in the safe range).\<close>

lemma round_trip_doc:
  assumes adv: "promoteStudentsToNextSemester req calls w = (resp1, w1)" "status resp1 = 200"
      and rb: "rollbackStudents req calls' w1 = (resp2, w2)" "status resp2 = 200"
      and ids: "studentIds req = IdArray ids"
      and normal: "\<not> resetAttendance req"
      and uniq: "distinct (map sid (students w))"
      and s: "s \<in> set (students w)" "sid s \<in> set ids"
      and c: "findOneCourse (courses w) (courseId s) = Some c"
      and n: "parseInt (semId s) = Num n" "n < No_of_Sem c" "1 \<le> n"
  shows "findById (sid s) (students w2) =
           Some (s\<lparr>semId := toString n,
                   academicYear :=
                     (if even n then nextYearLabel (academicYear s)
                      else prevYearLabel (academicYear s))\<rparr>)"
proof -
  define y1 where "y1 = (if even n then nextYearLabel (academicYear s) else academicYear s)"
  define s1 where "s1 = s\<lparr>semId := toString (n + 1), academicYear := y1\<rparr>"
  note d = promoteDecision_apply [OF c n(1,2)]
  note b = batch_apply [where dec = "promoteDecision (courses w)" and idOf = pr_studentId,
      OF uniq s d promoteDecision_ids]
  note r = promote_success [OF adv ids]
  have "applySet \<lparr>set_semId = Some (toString (n + 1)), set_academicYear = Some y1\<rparr> s = s1"
    by (simp add: applySet_def s1_def)
  with b r have f1: "findById (sid s) (students w1) = Some s1" by (simp add: y1_def)
  then have m1: "s1 \<in> set (students w1)" by (simp add: findById_Some)
  have i1: "sid s1 = sid s" by (simp add: s1_def)
  from r have "map sid (students w1) = map sid (students w)" by (simp add: map_sid_docsAfter)
  with uniq have uniq1: "distinct (map sid (students w1))" by simp
  have p1: "parseInt (semId s1) = Num (n + 1)" by (simp add: s1_def parseInt_toString)
  have g1: "1 < n + 1" using n(3) by simp
  from normal have "rollbackDecision (resetAttendance req) s1 = rollbackDecision False s1" by simp
  note d2 = this [unfolded rollbackDecision_normal [OF p1 g1]]
  from s(2) i1 have in1: "sid s1 \<in> set ids" by simp
  note b2 = batch_apply [where dec = "rollbackDecision (resetAttendance req)"
      and idOf = rb_studentId, OF uniq1 m1 in1 d2 rollbackDecision_ids]
  note r2 = rollback_success [OF rb ids]
  have "applySet \<lparr>set_semId = Some (toString (n + 1 - 1)),
                  set_academicYear =
                    (if even (n + 1) then Some (prevYearLabel (academicYear s1)) else None)\<rparr> s1
        = s\<lparr>semId := toString n,
             academicYear := (if even n then nextYearLabel (academicYear s)
                              else prevYearLabel (academicYear s))\<rparr>"
    by (simp add: applySet_def s1_def y1_def)
  with b2 r2 i1 show ?thesis by simp
qed

text \<open>
  C2, the claim as written: normal Rollback after Advance restores the pair (semester,
  academicYear).  It does not.  Student 1 of the example is promoted from
  (\<open>"4"\<close>, \<open>"2024-25"\<close>) to (\<open>"5"\<close>, \<open>"2025-26"\<close>) and rolled back to (\<open>"4"\<close>, \<open>"2025-26"\<close>): both
  handlers key the year change off the parity of the semester they start from.  Student 4
  is promoted from \<open>"0"\<close> to \<open>"1"\<close> and then skipped by the rollback, so not even the
  semester comes back.
\<close>

theorem C2_round_trip_counterexample:
  "status (fst (promoteStudentsToNextSemester (exampleRequest False) None exampleWorld)) = 200
   \<and> 1 \<in> pr_studentId `
        set (promotedIn (fst (promoteStudentsToNextSemester (exampleRequest False) None exampleWorld)))
   \<and> 4 \<in> pr_studentId `
        set (promotedIn (fst (promoteStudentsToNextSemester (exampleRequest False) None exampleWorld)))
   \<and> status (fst (rollbackStudents (exampleRequest False) None
        (snd (promoteStudentsToNextSemester (exampleRequest False) None exampleWorld)))) = 200
   \<and> findById 1 (students exampleWorld)
       = Some \<lparr>sid = 1, courseId = ''MCA'', semId = ''4'', academicYear = ''2024-25''\<rparr>
   \<and> findById 1 (students (snd (rollbackStudents (exampleRequest False) None
        (snd (promoteStudentsToNextSemester (exampleRequest False) None exampleWorld)))))
       = Some \<lparr>sid = 1, courseId = ''MCA'', semId = ''4'', academicYear = ''2025-26''\<rparr>
   \<and> findById 4 (students exampleWorld)
       = Some \<lparr>sid = 4, courseId = ''MCA'', semId = ''0'', academicYear = ''2024-25''\<rparr>
   \<and> findById 4 (students (snd (rollbackStudents (exampleRequest False) None
        (snd (promoteStudentsToNextSemester (exampleRequest False) None exampleWorld)))))
       = Some \<lparr>sid = 4, courseId = ''MCA'', semId = ''1'', academicYear = ''2025-26''\<rparr>"
  by (simp add: promote_example) (simp add: handler_eval)

text \<open>
  C2, amended: for every resolved student to which a successful Advance applies a
  transition and whose parsed semester \<open>n\<close> is at least 1, a successful normal Rollback of
  the same request on the advanced state restores the semester: the stored string is the
  decimal form of \<open>n\<close> again and parses to the same number as the original.  Here \<open>n\<close> is a
  safe integer.  (The academic year is not part of this law.)
\<close>

theorem C2_round_trip_restores_semester:
  assumes adv: "promoteStudentsToNextSemester req calls w = (resp1, w1)" "status resp1 = 200"
      and rb: "rollbackStudents req calls' w1 = (resp2, w2)" "status resp2 = 200"
      and ids: "studentIds req = IdArray ids"
      and normal: "\<not> resetAttendance req"
      and uniq: "distinct (map sid (students w))"
      and s: "s \<in> set (students w)" "sid s \<in> set ids"
      and c: "findOneCourse (courses w) (courseId s) = Some c"
      and n: "parseInt (semId s) = Num n" "n < No_of_Sem c" "1 \<le> n"
      and safe: "safeInteger n"
  shows "map_option semId (findById (sid s) (students w2)) = Some (toString n)
       \<and> map_option (parseInt \<circ> semId) (findById (sid s) (students w2)) = Some (parseInt (semId s))
       \<and> map_option courseId (findById (sid s) (students w2)) = Some (courseId s)"
  using round_trip_doc [OF adv rb ids normal uniq s c n]
  by (simp add: parseInt_toString n(1))

theorem C2_round_trip_restores_semester_witness:
  "map_option semId (findById 1 (students (snd (rollbackStudents (exampleRequest False) None
        (snd (promoteStudentsToNextSemester (exampleRequest False) None exampleWorld))))))
     = Some ''4''"
proof -
  let ?s = "\<lparr>sid = 1, courseId = ''MCA'', semId = ''4'', academicYear = ''2024-25''\<rparr>"
  let ?c = "\<lparr>Course_Id = ''MCA'', No_of_Sem = 8\<rparr>"
  let ?p = "promoteStudentsToNextSemester (exampleRequest False) None exampleWorld"
  let ?r = "rollbackStudents (exampleRequest False) None (snd ?p)"
  have runp: "?p = (fst ?p, snd ?p)" and runr: "?r = (fst ?r, snd ?r)" by simp_all
  have okp: "status (fst ?p) = 200" by (simp add: promote_example)
  have okr: "status (fst ?r) = 200" by (simp add: promote_example) (simp add: handler_eval)
  have ids: "studentIds (exampleRequest False) = IdArray [1, 2, 3, 4, 5, 9]"
    by (simp add: exampleRequest_def)
  have normal: "\<not> resetAttendance (exampleRequest False)" by (simp add: exampleRequest_def)
  have uniq: "distinct (map sid (students exampleWorld))" by (simp add: exampleWorld_def)
  have s: "?s \<in> set (students exampleWorld)" "sid ?s \<in> set [1, 2, 3, 4, 5, 9]"
    by (simp_all add: exampleWorld_def)
  have c: "findOneCourse (courses exampleWorld) (courseId ?s) = Some ?c"
    by (simp add: exampleWorld_def findOneCourse_def)
  have n: "parseInt (semId ?s) = Num 4" "4 < No_of_Sem ?c" "(1::int) \<le> 4"
    by (simp_all add: js_eval)
  have safe: "safeInteger 4" by (simp add: safeInteger_def)
  have e: "toString 4 = ''4''" by (simp add: js_eval)
  from C2_round_trip_restores_semester [OF runp okp runr okr ids normal uniq s c n safe] e
  show ?thesis by simp
qed

end
